theory Spec2Isabelle
  imports Complex_Main
begin

section \<open>Python values, dictionaries and exceptions\<close>

text \<open>
  Both programs exchange JSON documents and keep them as Python dictionaries.  A value
  decoded by \<^verbatim>\<open>json.loads\<close> is modelled by \<open>pyval\<close>.  Numbers (Python \<^verbatim>\<open>int\<close> and finite
  \<^verbatim>\<open>float\<close>) are real numbers: every comparison the code makes is against a constant that
  is exact in binary, so comparing the real values is what the code computes.  The
  non-finite floats that \<^verbatim>\<open>json.loads\<close> also accepts (\<^verbatim>\<open>NaN\<close>, \<^verbatim>\<open>Infinity\<close>) are not
  modelled.  A dictionary is an association list in insertion order.  A string is its list
  of bytes in UTF-8.
\<close>

datatype pyval =
    PNone
  | PBool bool
  | PNum real
  | PStr string
  | PList "pyval list"
  | PDict "(string \<times> pyval) list"

datatype error = TypeError | AttributeError | KeyError | JSONDecodeError

text \<open>Sequencing of computations that may raise: the first exception wins.\<close>

definition then_do :: "error + 'a \<Rightarrow> ('a \<Rightarrow> error + 'b) \<Rightarrow> error + 'b" where
  "then_do m f = (case m of Inl e \<Rightarrow> Inl e | Inr x \<Rightarrow> f x)"

text \<open>Python truthiness, as used by \<^verbatim>\<open>if x:\<close>.\<close>

fun truthy :: "pyval \<Rightarrow> bool" where
  "truthy PNone = False"
| "truthy (PBool b) = b"
| "truthy (PNum x) = (x \<noteq> 0)"
| "truthy (PStr s) = (s \<noteq> [])"
| "truthy (PList xs) = (xs \<noteq> [])"
| "truthy (PDict kvs) = (kvs \<noteq> [])"

text \<open>\<^verbatim>\<open>d.get(k, default)\<close> on a dictionary.\<close>

definition dict_get :: "(string \<times> pyval) list \<Rightarrow> string \<Rightarrow> pyval \<Rightarrow> pyval" where
  "dict_get d k dflt = (case map_of d k of Some v \<Rightarrow> v | None \<Rightarrow> dflt)"

text \<open>\<^verbatim>\<open>d[k]\<close>: raises \<^verbatim>\<open>KeyError\<close> when the key is absent.\<close>

definition dict_item :: "(string \<times> pyval) list \<Rightarrow> string \<Rightarrow> error + pyval" where
  "dict_item d k = (case map_of d k of Some v \<Rightarrow> Inr v | None \<Rightarrow> Inl KeyError)"

text \<open>\<^verbatim>\<open>d[k] = v\<close>: an existing key keeps its place, a new key goes last.\<close>

fun dict_set :: "string \<Rightarrow> pyval \<Rightarrow> (string \<times> pyval) list \<Rightarrow> (string \<times> pyval) list" where
  "dict_set k v [] = [(k, v)]"
| "dict_set k v (p # ps) = (if fst p = k then (k, v) # ps else p # dict_set k v ps)"

text \<open>
  The method \<^verbatim>\<open>.get\<close> exists on dictionaries only; on any other decoded JSON value the
  attribute access raises \<^verbatim>\<open>AttributeError\<close>.
\<close>

fun dict_of :: "pyval \<Rightarrow> error + (string \<times> pyval) list" where
  "dict_of (PDict kvs) = Inr kvs"
| "dict_of _ = Inl AttributeError"

text \<open>
  \<^verbatim>\<open>x < c\<close> and \<^verbatim>\<open>x > c\<close> for a float constant \<open>c\<close>: numbers compare by value, \<^verbatim>\<open>True\<close> and
  \<^verbatim>\<open>False\<close> are the integers 1 and 0, every other value raises \<^verbatim>\<open>TypeError\<close>.
\<close>

fun py_lt :: "pyval \<Rightarrow> real \<Rightarrow> error + bool" where
  "py_lt (PNum x) c = Inr (x < c)"
| "py_lt (PBool b) c = Inr ((if b then 1 else 0) < c)"
| "py_lt _ c = Inl TypeError"

fun py_gt :: "pyval \<Rightarrow> real \<Rightarrow> error + bool" where
  "py_gt (PNum x) c = Inr (x > c)"
| "py_gt (PBool b) c = Inr ((if b then 1 else 0) > c)"
| "py_gt _ c = Inl TypeError"

section \<open>The API server: thresholds and diagnosis\<close>

record thresholds =
  do_low :: real
  ammonia_high :: real
  water_level_low :: real
  temp_high :: real
  ph_low :: real

definition THRESHOLDS :: thresholds where
  "THRESHOLDS = \<lparr> do_low = 5.0, ammonia_high = 0.5, water_level_low = 80.0,
                  temp_high = 26.0, ph_low = 6.0 \<rparr>"

text \<open>
  \<^verbatim>\<open>diagnose(reading)\<close> reads the module-level table \<^verbatim>\<open>THRESHOLDS\<close>; here the table is a
  parameter, and the server calls \<open>diagnose THRESHOLDS\<close>.  The five comparisons are
  all evaluated, in the source's order, before the chain of tests.
\<close>

definition diagnose :: "thresholds \<Rightarrow> pyval \<Rightarrow> error + string" where
  "diagnose th reading =
     then_do (dict_of reading) (\<lambda>r.
     then_do (py_lt (dict_get r ''dissolved_oxygen_mgL'' (PNum 10)) (do_low th)) (\<lambda>low_do.
     then_do (py_gt (dict_get r ''ammonia_mgL'' (PNum 0)) (ammonia_high th)) (\<lambda>high_ammonia.
     then_do (py_lt (dict_get r ''water_level_percent'' (PNum 100)) (water_level_low th)) (\<lambda>low_water_level.
     then_do (py_gt (dict_get r ''water_temp_C'' (PNum 20)) (temp_high th)) (\<lambda>high_temp.
     then_do (py_lt (dict_get r ''pH'' (PNum 7)) (ph_low th)) (\<lambda>low_ph.
       Inr (if low_water_level \<and> low_do then ''Pump failure suspected''
            else if high_ammonia \<and> low_do then ''Overfeeding / biofilter stress''
            else if high_temp \<and> low_do then ''Thermal oxygen stress''
            else if low_water_level then ''Leak or evaporation''
            else if low_ph then ''pH too low - add buffer''
            else ''Normal operation'')))))))"

section \<open>The API server: the telemetry store\<close>

text \<open>
  \<^verbatim>\<open>collections.deque(maxlen=n)\<close>: \<^verbatim>\<open>append\<close> adds on the right and, when the bound is
  exceeded, discards one element from the left.
\<close>

record 'a deque =
  maxlen :: nat
  items :: "'a list"

definition deque_append :: "'a \<Rightarrow> 'a deque \<Rightarrow> 'a deque" where
  "deque_append x d =
     (let ys = items d @ [x]
      in d\<lparr> items := (if length ys > maxlen d then tl ys else ys) \<rparr>)"

definition MAX_READINGS :: nat where
  "MAX_READINGS = 500"

record store =
  sensor_readings :: "pyval deque"
  latest_reading :: pyval

definition init_store :: store where
  "init_store = \<lparr> sensor_readings = \<lparr> maxlen = MAX_READINGS, items = [] \<rparr>,
                  latest_reading = PDict [] \<rparr>"

text \<open>
  The body of \<^verbatim>\<open>on_message\<close> up to the critical section: the payload with its diagnosis
  attached, or the exception that the handler catches.
\<close>

definition tag_payload :: "pyval \<Rightarrow> error + pyval" where
  "tag_payload payload =
     then_do (diagnose THRESHOLDS payload) (\<lambda>d.
     then_do (dict_of payload) (\<lambda>kvs.
       Inr (PDict (dict_set ''diagnosis'' (PStr d) kvs))))"

text \<open>The two assignments made while the lock is held.\<close>

definition store_reading :: "pyval \<Rightarrow> store \<Rightarrow> store" where
  "store_reading payload st =
     st\<lparr> latest_reading := payload,
         sensor_readings := deque_append payload (sensor_readings st) \<rparr>"

text \<open>
  \<^verbatim>\<open>on_message\<close>: the second argument is the outcome of \<^verbatim>\<open>json.loads(msg.payload.decode())\<close>,
  \<open>None\<close> when decoding raises.  Every exception is caught by the handler and leaves the
  store as it was.  Writing the CSV log and printing do not touch the store.
\<close>

definition on_message :: "string \<Rightarrow> pyval option \<Rightarrow> store \<Rightarrow> store" where
  "on_message topic decoded st =
     (if topic = ''aquaponics/sensors/all'' then
        (case decoded of
           None \<Rightarrow> st
         | Some payload \<Rightarrow>
             (case tag_payload payload of
                Inl e \<Rightarrow> st
              | Inr payload' \<Rightarrow> store_reading payload' st))
      else st)"

text \<open>\<^verbatim>\<open>GET /latest\<close>.\<close>

definition get_latest :: "store \<Rightarrow> pyval" where
  "get_latest st =
     (if truthy (latest_reading st) then latest_reading st
      else PDict [(''message'', PStr ''No data yet. Is the Raspberry Pi publishing?'')])"

text \<open>
  The slice \<^verbatim>\<open>xs[start:]\<close>: a negative start counts from the end, and the start is then
  clipped to the list.
\<close>

definition py_slice_from :: "int \<Rightarrow> 'a list \<Rightarrow> 'a list" where
  "py_slice_from start xs =
     (let n = int (length xs);
          s = (if start < 0 then max 0 (start + n) else min start n)
      in drop (nat s) xs)"

record data_response =
  count :: nat
  readings :: "pyval list"

text \<open>\<^verbatim>\<open>GET /data?limit=...\<close>.\<close>

definition get_data :: "int \<Rightarrow> store \<Rightarrow> data_response" where
  "get_data limit st =
     (let readings_list = items (sensor_readings st);
          data = (if int (length readings_list) > limit
                  then py_slice_from (- limit) readings_list
                  else readings_list)
      in \<lparr> count = length data, readings = data \<rparr>)"

text \<open>
  \<^verbatim>\<open>GET /alerts\<close>.  An alert is the dictionary the source builds; the f-string of its
  message is kept as the text before the interpolated value, the value, and the text
  after it.
\<close>

datatype message = Text string | Fmt string pyval string

record alert =
  atype :: string
  sensor :: string
  message :: message

datatype alerts_response =
    NoData
  | Alerts (alerts: "alert list") (alert_count: nat) (diagnosis: pyval)

text \<open>
  One \<^verbatim>\<open>if cond: alerts.append(...)\<close> statement: the condition may raise, and the alert
  is built (and may raise) only when the condition holds.
\<close>

definition check_alert :: "error + bool \<Rightarrow> error + alert \<Rightarrow> alert list \<Rightarrow> error + alert list" where
  "check_alert cond mk acc =
     then_do cond (\<lambda>c. if c then then_do mk (\<lambda>a. Inr (acc @ [a])) else Inr acc)"

definition get_alerts :: "store \<Rightarrow> error + alerts_response" where
  "get_alerts st =
     (if \<not> truthy (latest_reading st) then Inr NoData
      else
        then_do (dict_of (latest_reading st)) (\<lambda>r.
        then_do (check_alert
                   (py_lt (dict_get r ''dissolved_oxygen_mgL'' (PNum 10)) (do_low THRESHOLDS))
                   (then_do (dict_item r ''dissolved_oxygen_mgL'') (\<lambda>v.
                      Inr \<lparr> atype = ''warning'', sensor = ''dissolved_oxygen'',
                            message = Fmt ''Low DO: '' v '' mg/L'' \<rparr>))
                   []) (\<lambda>a1.
        then_do (check_alert
                   (py_gt (dict_get r ''ammonia_mgL'' (PNum 0)) (ammonia_high THRESHOLDS))
                   (then_do (dict_item r ''ammonia_mgL'') (\<lambda>v.
                      Inr \<lparr> atype = ''danger'', sensor = ''ammonia'',
                            message = Fmt ''High ammonia: '' v '' mg/L'' \<rparr>))
                   a1) (\<lambda>a2.
        then_do (check_alert
                   (py_lt (dict_get r ''water_level_percent'' (PNum 100)) (water_level_low THRESHOLDS))
                   (then_do (dict_item r ''water_level_percent'') (\<lambda>v.
                      Inr \<lparr> atype = ''danger'', sensor = ''water_level'',
                            message = Fmt ''Low water: '' v ''%'' \<rparr>))
                   a2) (\<lambda>a3.
        then_do (check_alert
                   (py_gt (dict_get r ''water_temp_C'' (PNum 20)) (temp_high THRESHOLDS))
                   (then_do (dict_item r ''water_temp_C'') (\<lambda>v.
                      Inr \<lparr> atype = ''warning'', sensor = ''temperature'',
                            message = Fmt ''High temp: '' v [CHR 0xC2, CHR 0xB0, CHR ''C''] \<rparr>))
                   a3) (\<lambda>a4.
        then_do (check_alert
                   (py_lt (dict_get r ''pH'' (PNum 7)) (ph_low THRESHOLDS))
                   (then_do (dict_item r ''pH'') (\<lambda>v.
                      Inr \<lparr> atype = ''warning'', sensor = ''pH'',
                            message = Fmt ''Low pH: '' v [] \<rparr>))
                   a4) (\<lambda>a5.
        then_do (check_alert
                   (Inr (dict_get r ''pump_status'' PNone = PStr ''FAILURE''))
                   (Inr \<lparr> atype = ''danger'', sensor = ''pump'',
                         message = Text ''Pump failure detected!'' \<rparr>)
                   a5) (\<lambda>a6.
          Inr (Alerts a6 (length a6) (dict_get r ''diagnosis'' (PStr ''Unknown'')))))))))))"

section \<open>The sensor simulator: device state and control commands\<close>

text \<open>
  The attributes of \<^verbatim>\<open>AquaponicsSensorSimulator\<close> (\<^verbatim>\<open>start_time\<close> is written once and never
  read).  \<^verbatim>\<open>pump_failure\<close> holds whatever value the control message carried and is tested
  for truthiness.
\<close>

record sim =
  reading_count :: int
  ph_drift :: real
  ec_drift :: real
  pump_on :: bool
  light_on :: bool
  pump_failure :: pyval
  manual_light :: bool

definition init_sim :: sim where
  "init_sim = \<lparr> reading_count = 0, ph_drift = 0, ec_drift = 0, pump_on = True,
                light_on = True, pump_failure = PBool False, manual_light = False \<rparr>"

definition set_pump :: "pyval \<Rightarrow> sim \<Rightarrow> sim" where
  "set_pump state s =
     (if state = PStr ''toggle'' then s\<lparr> pump_on := \<not> pump_on s \<rparr>
      else if state = PStr ''on'' then s\<lparr> pump_on := True \<rparr>
      else if state = PStr ''off'' then s\<lparr> pump_on := False \<rparr>
      else s)"

definition set_light :: "pyval \<Rightarrow> sim \<Rightarrow> sim" where
  "set_light state s0 =
     (let s = s0\<lparr> manual_light := True \<rparr>
      in if state = PStr ''toggle'' then s\<lparr> light_on := \<not> light_on s \<rparr>
         else if state = PStr ''on'' then s\<lparr> light_on := True \<rparr>
         else if state = PStr ''off'' then s\<lparr> light_on := False \<rparr>
         else if state = PStr ''auto'' then s\<lparr> manual_light := False \<rparr>
         else s)"

definition set_failure_simulation :: "pyval \<Rightarrow> sim \<Rightarrow> sim" where
  "set_failure_simulation enable s = s\<lparr> pump_failure := enable \<rparr>"

text \<open>
  The simulator's \<^verbatim>\<open>on_message\<close>, which dispatches on the topic.  The second argument is
  the outcome of \<^verbatim>\<open>json.loads\<close>, \<open>None\<close> when it raises; every exception is caught by the
  handler and leaves the device state as it was.
\<close>

definition sim_on_message :: "string \<Rightarrow> pyval option \<Rightarrow> sim \<Rightarrow> sim" where
  "sim_on_message topic decoded s =
     (case decoded of
        None \<Rightarrow> s
      | Some payload \<Rightarrow>
          if topic = ''aquaponics/control/pump'' then
            (case dict_of payload of
               Inl e \<Rightarrow> s
             | Inr kvs \<Rightarrow> set_pump (dict_get kvs ''state'' (PStr ''toggle'')) s)
          else if topic = ''aquaponics/control/light'' then
            (case dict_of payload of
               Inl e \<Rightarrow> s
             | Inr kvs \<Rightarrow> set_light (dict_get kvs ''state'' (PStr ''toggle'')) s)
          else if topic = ''aquaponics/control/simulate'' then
            (case dict_of payload of
               Inl e \<Rightarrow> s
             | Inr kvs \<Rightarrow> set_failure_simulation (dict_get kvs ''enable'' (PBool True)) s)
          else s)"

text \<open>
  The message the server's \<^verbatim>\<open>control_pump(state)\<close> publishes on
  \<^verbatim>\<open>aquaponics/control/pump\<close>, as the simulator decodes it.
\<close>

definition control_pump_payload :: "string \<Rightarrow> pyval" where
  "control_pump_payload state = PDict [(''action'', PStr ''pump''), (''state'', PStr state)]"

text \<open>
  Likewise the message of \<^verbatim>\<open>control_light(state)\<close> on \<^verbatim>\<open>aquaponics/control/light\<close>; the
  server forwards any state string it is given.
\<close>

definition control_light_payload :: "string \<Rightarrow> pyval" where
  "control_light_payload state = PDict [(''action'', PStr ''light''), (''state'', PStr state)]"

section \<open>The sensor simulator: generating a reading\<close>

text \<open>
  \<^verbatim>\<open>round(x, n)\<close>: the nearest multiple of \<open>10\<^sup>-\<^sup>n\<close>, a tie going to the even one.
  \<open>round_half_even\<close> is the rounding to an integer that it rests on.  Python rounds the
  exact value of the float \<open>x\<close>; the model rounds the real it is given.  The two differ
  only where the real is a decimal tie that no float represents (\<open>0.1375\<close> to three
  places), where Python rounds the neighbouring float; what is proved below uses that
  rounding is monotone, keeps 0 and moves a value by at most half a unit, which both do.
\<close>

definition round_half_even :: "real \<Rightarrow> int" where
  "round_half_even y =
     (let f = \<lfloor>y\<rfloor>; d = y - of_int f
      in if d < 1 / 2 then f
         else if d > 1 / 2 then f + 1
         else if even f then f else f + 1)"

definition py_round :: "real \<Rightarrow> nat \<Rightarrow> real" where
  "py_round x n = of_int (round_half_even (x * 10 ^ n)) / 10 ^ n"

text \<open>
  \<^verbatim>\<open>random.gauss(mu, sigma)\<close> is \<open>mu + z * sigma\<close> for a standard normal sample \<open>z\<close>.
  What one call of \<^verbatim>\<open>get_readings\<close> takes from its environment is a \<open>tick\<close>: the sample
  behind each call of \<^verbatim>\<open>random.gauss\<close>, the hour returned by each call of
  \<^verbatim>\<open>datetime.now().hour\<close>, and the ISO timestamp, in the order of the calls.  A sample is
  any real here; the samples \<^verbatim>\<open>random.gauss\<close> really returns are bounded, since it computes
  \<open>z = cos (2 * pi * u) * sqrt (- 2 * ln (1 - v))\<close> from floats \<open>u\<close>, \<open>v\<close> in \<open>[0, 1)\<close> that are
  multiples of \<open>2\<^sup>-\<^sup>5\<^sup>3\<close>, so that \<open>\<bar>z\<bar> \<le> sqrt (106 * ln 2) < 8.58\<close>.
\<close>

definition gauss :: "real \<Rightarrow> real \<Rightarrow> real \<Rightarrow> real" where
  "gauss mu sigma z = mu + z * sigma"

record tick =
  z_ec_drift :: real
  hour_water_temp :: nat
  z_water_temp :: real
  hour_air_temp :: nat
  z_air_temp :: real
  z_ph :: real
  z_ammonia :: real
  hour_do :: nat
  z_do :: real
  z_water_level :: real
  hour_humidity :: nat
  z_humidity :: real
  hour_light :: nat
  z_light :: real
  now_iso :: string

definition daily_cycle :: "real \<Rightarrow> real \<Rightarrow> real \<Rightarrow> nat \<Rightarrow> real \<Rightarrow> real" where
  "daily_cycle mean amplitude noise_std hour z =
     (let value = mean + amplitude * sin (2 * pi * real hour / 24);
          value = value + gauss 0 noise_std z
      in py_round value 2)"

record reading =
  timestamp :: string
  water_temp_C :: real
  air_temp_C :: real
  pH :: real
  ammonia_mgL :: real
  dissolved_oxygen_mgL :: real
  ec_uScm :: real
  water_level_percent :: real
  humidity_percent :: real
  light_lux :: real
  pump_status :: string
  light_status :: string
  reading_id :: int

definition get_readings :: "tick \<Rightarrow> sim \<Rightarrow> reading \<times> sim" where
  "get_readings t s0 =
     (let s = s0\<lparr> reading_count := reading_count s0 + 1 \<rparr>;
          s = s\<lparr> ph_drift := ph_drift s - 0.0001 \<rparr>;
          s = s\<lparr> ec_drift := ec_drift s + gauss 0 0.5 (z_ec_drift t) \<rparr>;
          water_temp = daily_cycle 23.5 1.5 0.2 (hour_water_temp t) (z_water_temp t);
          air_temp = daily_cycle 22.0 2.0 0.3 (hour_air_temp t) (z_air_temp t);
          ph = py_round (6.9 + ph_drift s + gauss 0 0.05 (z_ph t)) 2;
          ammonia = py_round (max 0 (gauss 0.15 0.05 (z_ammonia t))) 3;
          dissolved_oxygen = daily_cycle 6.5 0.6 0.15 (hour_do t) (z_do t);
          ec = py_round (900 + ec_drift s) 1;
          water_level = py_round (95 + gauss 0 2 (z_water_level t)) 1;
          humidity = daily_cycle 60 10 2 (hour_humidity t) (z_humidity t);
          hour = hour_light t;
          light = (if manual_light s then (if light_on s then 20000 else 0)
                   else max 0 (20000 * sin (2 * pi * (real hour - 6) / 24)));
          light = py_round (light + gauss 0 500 (z_light t)) 0;
          (pump_status, water_level, dissolved_oxygen) =
             (if truthy (pump_failure s) then (''FAILURE'', water_level - 20, dissolved_oxygen - 2)
              else if \<not> pump_on s then (''OFF'', water_level - 5, dissolved_oxygen - 1)
              else (''ON'', water_level, dissolved_oxygen))
      in (\<lparr> timestamp = now_iso t,
            water_temp_C = water_temp,
            air_temp_C = air_temp,
            pH = ph,
            ammonia_mgL = ammonia,
            dissolved_oxygen_mgL = py_round (max 0 dissolved_oxygen) 2,
            ec_uScm = ec,
            water_level_percent = py_round (max 0 water_level) 1,
            humidity_percent = py_round humidity 1,
            light_lux = max 0 light,
            pump_status = pump_status,
            light_status = (if (if manual_light s then light_on s else light > 0)
                            then ''ON'' else ''OFF''),
            reading_id = reading_count s \<rparr>, s))"

section \<open>The diagnosis rules as a table\<close>

text \<open>
  The rules of the diagnosis engine as the specification lists them: a table of conditions
  and labels in priority order (the labels spelt as the code spells them), of which the
  first row whose condition holds gives the label, and \<open>Normal operation\<close> when none holds.
  This is the reading of "first match wins" that \<open>diagnose\<close> is compared with.
\<close>

definition rule_table :: "bool \<Rightarrow> bool \<Rightarrow> bool \<Rightarrow> bool \<Rightarrow> bool \<Rightarrow> (bool \<times> string) list" where
  "rule_table low_do high_ammonia low_water_level high_temp low_ph =
     [(low_water_level \<and> low_do, ''Pump failure suspected''),
      (high_ammonia \<and> low_do, ''Overfeeding / biofilter stress''),
      (high_temp \<and> low_do, ''Thermal oxygen stress''),
      (low_water_level, ''Leak or evaporation''),
      (low_ph, ''pH too low - add buffer'')]"

definition first_match :: "(bool \<times> string) list \<Rightarrow> string" where
  "first_match rules =
     (case find fst rules of Some rule \<Rightarrow> snd rule | None \<Rightarrow> ''Normal operation'')"

text \<open>A reading that satisfies rule 1 and rule 2 at once.\<close>

definition both_rules_reading :: "(string \<times> pyval) list" where
  "both_rules_reading =
     [(''water_level_percent'', PNum 70), (''dissolved_oxygen_mgL'', PNum 3),
      (''ammonia_mgL'', PNum 0.6)]"

section \<open>Readings with missing fields\<close>

text \<open>
  A field of a reading is well typed when it is absent or a number (a JSON number or
  boolean): the fields that \<^verbatim>\<open>diagnose\<close> and \<^verbatim>\<open>get_alerts\<close> compare then never raise.
\<close>

fun is_number :: "pyval \<Rightarrow> bool" where
  "is_number (PNum x) = True"
| "is_number (PBool b) = True"
| "is_number _ = False"

definition absent_or_number :: "(string \<times> pyval) list \<Rightarrow> string \<Rightarrow> bool" where
  "absent_or_number r k = (case map_of r k of None \<Rightarrow> True | Some v \<Rightarrow> is_number v)"

text \<open>The \<^verbatim>\<open>sensor\<close> entries of the alerts in a response of \<^verbatim>\<open>get_alerts\<close>.\<close>

fun alert_sensors :: "error + alerts_response \<Rightarrow> string list" where
  "alert_sensors (Inr (Alerts as n d)) = map sensor as"
| "alert_sensors _ = []"

text \<open>
  The list \<^verbatim>\<open>get_alerts\<close> builds, in terms of the outcome of its five comparisons.
\<close>

definition alerts_for ::
  "(string \<times> pyval) list \<Rightarrow> bool \<Rightarrow> bool \<Rightarrow> bool \<Rightarrow> bool \<Rightarrow> bool \<Rightarrow> alert list" where
  "alerts_for r low_do high_ammonia low_water_level high_temp low_ph =
     (if low_do
      then [\<lparr> atype = ''warning'', sensor = ''dissolved_oxygen'',
              message = Fmt ''Low DO: '' (dict_get r ''dissolved_oxygen_mgL'' PNone) '' mg/L'' \<rparr>]
      else [])
     @ (if high_ammonia
        then [\<lparr> atype = ''danger'', sensor = ''ammonia'',
                message = Fmt ''High ammonia: '' (dict_get r ''ammonia_mgL'' PNone) '' mg/L'' \<rparr>]
        else [])
     @ (if low_water_level
        then [\<lparr> atype = ''danger'', sensor = ''water_level'',
                message = Fmt ''Low water: '' (dict_get r ''water_level_percent'' PNone) ''%'' \<rparr>]
        else [])
     @ (if high_temp
        then [\<lparr> atype = ''warning'', sensor = ''temperature'',
                message = Fmt ''High temp: '' (dict_get r ''water_temp_C'' PNone)
                            [CHR 0xC2, CHR 0xB0, CHR ''C''] \<rparr>]
        else [])
     @ (if low_ph
        then [\<lparr> atype = ''warning'', sensor = ''pH'',
                message = Fmt ''Low pH: '' (dict_get r ''pH'' PNone) [] \<rparr>]
        else [])
     @ (if dict_get r ''pump_status'' PNone = PStr ''FAILURE''
        then [\<lparr> atype = ''danger'', sensor = ''pump'',
                message = Text ''Pump failure detected!'' \<rparr>]
        else [])"

text \<open>A reading with only its water level, below the threshold.\<close>

definition level_only_reading :: "(string \<times> pyval) list" where
  "level_only_reading = [(''water_level_percent'', PNum 70)]"

section \<open>Runs of the two programs\<close>

text \<open>
  A run of the simulator: its main loop calls \<^verbatim>\<open>get_readings\<close> once per tick, and between
  two ticks the MQTT thread may deliver control messages to \<^verbatim>\<open>on_message\<close>.  \<open>run_events\<close>
  gives the readings generated, in order.
\<close>

datatype event = Control string "pyval option" | Tick tick

fun run_events :: "event list \<Rightarrow> sim \<Rightarrow> reading list" where
  "run_events [] s = []"
| "run_events (Control topic decoded # es) s = run_events es (sim_on_message topic decoded s)"
| "run_events (Tick t # es) s = fst (get_readings t s) # run_events es (snd (get_readings t s))"

text \<open>
  A run of the server: the MQTT thread calls \<^verbatim>\<open>on_message\<close> once for each message
  published on \<^verbatim>\<open>aquaponics/sensors/all\<close>, in delivery order.
\<close>

fun deliver :: "pyval list \<Rightarrow> store \<Rightarrow> store" where
  "deliver [] st = st"
| "deliver (p # ps) st = deliver ps (on_message ''aquaponics/sensors/all'' (Some p) st)"

text \<open>
  A tick at midnight in which every Gaussian sample is zero, to evaluate the generator at.
\<close>

definition zero_tick :: tick where
  "zero_tick = \<lparr> z_ec_drift = 0, hour_water_temp = 0, z_water_temp = 0, hour_air_temp = 0,
      z_air_temp = 0, z_ph = 0, z_ammonia = 0, hour_do = 0, z_do = 0, z_water_level = 0,
      hour_humidity = 0, z_humidity = 0, hour_light = 0, z_light = 0,
      now_iso = ''2024-01-01T00:00:00'' \<rparr>"

section \<open>The lock: interleavings of the writer and the readers\<close>

text \<open>
  In the server every access to \<^verbatim>\<open>latest_reading\<close> and \<^verbatim>\<open>sensor_readings\<close> is inside
  \<^verbatim>\<open>with lock:\<close>.  The MQTT thread running \<^verbatim>\<open>on_message\<close> (the writer) and the request
  handlers (the readers, numbered) are interleaved statement by statement.  A
  configuration holds the shared store, the owner of the lock and the position of each
  thread.  The writer, once the payload is tagged, takes the lock, assigns
  \<^verbatim>\<open>latest_reading\<close>, appends to \<^verbatim>\<open>sensor_readings\<close> and releases the lock.  A reader is
  modelled on \<^verbatim>\<open>get_status\<close>, the handler that reads both fields: it takes the lock, reads
  \<^verbatim>\<open>sensor_readings\<close>, reads \<^verbatim>\<open>latest_reading\<close>, releases the lock and is left with the pair
  it has read.  Taking the lock is possible only when nobody holds it.  A message whose
  payload cannot be tagged never reaches the critical section and is no step here.
\<close>

datatype owner = Writer | Reader nat

datatype writer_pc = W_idle | W_locked pyval | W_latest_set pyval | W_appended

datatype reader_pc =
    R_idle
  | R_locked
  | R_read_history "pyval list"
  | R_read_both "pyval list" pyval
  | R_done "pyval list" pyval

record config =
  shared :: store
  lock :: "owner option"
  wpc :: writer_pc
  readers :: "nat \<Rightarrow> reader_pc"

definition init_config :: config where
  "init_config = \<lparr> shared = init_store, lock = None, wpc = W_idle, readers = (\<lambda>i. R_idle) \<rparr>"

datatype action =
    WAcquire pyval | WSetLatest | WAppend | WRelease
  | RAcquire nat | RReadHistory nat | RReadLatest nat | RRelease nat | RRestart nat

text \<open>
  One statement of one thread; \<open>None\<close> when the thread is not at that statement, or is
  waiting for the lock.
\<close>

fun fire :: "action \<Rightarrow> config \<Rightarrow> config option" where
  "fire (WAcquire payload) c =
     (case tag_payload payload of
        Inl e \<Rightarrow> None
      | Inr p \<Rightarrow> if lock c = None \<and> wpc c = W_idle
                 then Some (c\<lparr> lock := Some Writer, wpc := W_locked p \<rparr>) else None)"
| "fire WSetLatest c =
     (case wpc c of
        W_locked p \<Rightarrow> Some (c\<lparr> shared := (shared c)\<lparr> latest_reading := p \<rparr>,
                               wpc := W_latest_set p \<rparr>)
      | _ \<Rightarrow> None)"
| "fire WAppend c =
     (case wpc c of
        W_latest_set p \<Rightarrow>
          Some (c\<lparr> shared := (shared c)\<lparr> sensor_readings :=
                                deque_append p (sensor_readings (shared c)) \<rparr>,
                   wpc := W_appended \<rparr>)
      | _ \<Rightarrow> None)"
| "fire WRelease c =
     (case wpc c of
        W_appended \<Rightarrow> Some (c\<lparr> lock := None, wpc := W_idle \<rparr>)
      | _ \<Rightarrow> None)"
| "fire (RAcquire i) c =
     (if lock c = None \<and> readers c i = R_idle
      then Some (c\<lparr> lock := Some (Reader i), readers := (readers c)(i := R_locked) \<rparr>)
      else None)"
| "fire (RReadHistory i) c =
     (case readers c i of
        R_locked \<Rightarrow>
          Some (c\<lparr> readers := (readers c)(i := R_read_history (items (sensor_readings (shared c)))) \<rparr>)
      | _ \<Rightarrow> None)"
| "fire (RReadLatest i) c =
     (case readers c i of
        R_read_history h \<Rightarrow>
          Some (c\<lparr> readers := (readers c)(i := R_read_both h (latest_reading (shared c))) \<rparr>)
      | _ \<Rightarrow> None)"
| "fire (RRelease i) c =
     (case readers c i of
        R_read_both h l \<Rightarrow> Some (c\<lparr> lock := None, readers := (readers c)(i := R_done h l) \<rparr>)
      | _ \<Rightarrow> None)"
| "fire (RRestart i) c =
     (case readers c i of
        R_done h l \<Rightarrow> Some (c\<lparr> readers := (readers c)(i := R_idle) \<rparr>)
      | _ \<Rightarrow> None)"

fun run_actions :: "action list \<Rightarrow> config \<Rightarrow> config option" where
  "run_actions [] c = Some c"
| "run_actions (a # as) c = (case fire a c of None \<Rightarrow> None | Some c' \<Rightarrow> run_actions as c')"

text \<open>
  An example run: the empty reading is ingested, then reader 0 reads the pair.
\<close>

definition tagged_empty :: pyval where
  "tagged_empty = PDict [(''diagnosis'', PStr ''Normal operation'')]"

definition writer_then_reader :: "action list" where
  "writer_then_reader =
     [WAcquire (PDict []), WSetLatest, WAppend, WRelease,
      RAcquire 0, RReadHistory 0, RReadLatest 0, RRelease 0]"

text \<open>
  A pair (history, latest) is consistent when the latest reading is the newest entry of
  the history, or nothing has been stored yet.  \<open>lock_inv\<close> is the invariant of the
  transition system: the lock is held exactly by the thread inside its critical section,
  the store is consistent except between the writer's two assignments, and what a reader
  has read is consistent.
\<close>

definition consistent_pair :: "pyval list \<Rightarrow> pyval \<Rightarrow> bool" where
  "consistent_pair h l = (if h = [] then l = PDict [] else last h = l)"

fun in_section :: "reader_pc \<Rightarrow> bool" where
  "in_section R_locked = True"
| "in_section (R_read_history h) = True"
| "in_section (R_read_both h l) = True"
| "in_section _ = False"

definition consistent :: "store \<Rightarrow> bool" where
  "consistent st = consistent_pair (items (sensor_readings st)) (latest_reading st)"

fun writer_ok :: "store \<Rightarrow> writer_pc \<Rightarrow> bool" where
  "writer_ok st (W_latest_set p) = (latest_reading st = p)"
| "writer_ok st _ = consistent st"

fun reader_ok :: "store \<Rightarrow> reader_pc \<Rightarrow> bool" where
  "reader_ok st (R_read_history h) = (h = items (sensor_readings st))"
| "reader_ok st (R_read_both h l) = consistent_pair h l"
| "reader_ok st (R_done h l) = consistent_pair h l"
| "reader_ok st _ = True"

definition lock_inv :: "config \<Rightarrow> bool" where
  "lock_inv c =
     ((wpc c \<noteq> W_idle) = (lock c = Some Writer)
      \<and> (\<forall>i. in_section (readers c i) = (lock c = Some (Reader i)))
      \<and> 0 < maxlen (sensor_readings (shared c))
      \<and> writer_ok (shared c) (wpc c)
      \<and> (\<forall>i. reader_ok (shared c) (readers c i)))"

section \<open>Basic facts about dictionaries\<close>

lemma dict_get_simps:
  "dict_get [] k d = d"
  "dict_get ((k', v) # kvs) k d = (if k' = k then v else dict_get kvs k d)"
  by (auto simp: dict_get_def)

section \<open>Pump commands\<close>

text \<open>
  C7.  Applying the pump command \<open>toggle\<close> twice gives back the device state it started
  from, in particular the original \<open>pump_on\<close>; applying \<open>on\<close> twice is the same as applying
  it once, and likewise \<open>off\<close>.  This holds for \<^verbatim>\<open>set_pump\<close> and for the control messages
  \<^verbatim>\<open>{"action": "pump", "state": ...}\<close> handled by the simulator's \<^verbatim>\<open>on_message\<close>.
\<close>

theorem pump_toggle_involution_on_off_idempotent:
  "set_pump (PStr ''toggle'') (set_pump (PStr ''toggle'') s) = s
   \<and> set_pump (PStr ''on'') (set_pump (PStr ''on'') s) = set_pump (PStr ''on'') s
   \<and> set_pump (PStr ''off'') (set_pump (PStr ''off'') s) = set_pump (PStr ''off'') s
   \<and> pump_on (sim_on_message ''aquaponics/control/pump'' (Some (control_pump_payload ''toggle''))
        (sim_on_message ''aquaponics/control/pump'' (Some (control_pump_payload ''toggle'')) s))
      = pump_on s
   \<and> sim_on_message ''aquaponics/control/pump'' (Some (control_pump_payload ''on''))
        (sim_on_message ''aquaponics/control/pump'' (Some (control_pump_payload ''on'')) s)
      = sim_on_message ''aquaponics/control/pump'' (Some (control_pump_payload ''on'')) s"
  by (simp add: set_pump_def sim_on_message_def control_pump_payload_def dict_get_simps)

section \<open>Unrecognised command values\<close>

text \<open>
  What the two setters do with a state they do not recognise: \<^verbatim>\<open>set_pump\<close> changes
  nothing, \<^verbatim>\<open>set_light\<close> leaves \<open>light_on\<close> as it was but has already set the
  manual-light flag.
\<close>

lemma set_pump_unrecognized:
  "state \<notin> {PStr ''toggle'', PStr ''on'', PStr ''off''} \<Longrightarrow> set_pump state s = s"
  by (simp add: set_pump_def)

lemma set_light_unrecognized:
  "state \<notin> {PStr ''toggle'', PStr ''on'', PStr ''off'', PStr ''auto''} \<Longrightarrow>
   set_light state s = s\<lparr> manual_light := True \<rparr>"
  by (simp add: set_light_def)

section \<open>The history query\<close>

text \<open>
  C5.  With two readings stored, \<^verbatim>\<open>GET /data?limit=0\<close> returns both of them and not zero
  entries: the length 2 exceeds the limit, and the slice \<^verbatim>\<open>readings_list[-0:]\<close> is the
  whole list.
\<close>

theorem get_data_limit_zero_returns_all:
  "readings (get_data 0
      (on_message ''aquaponics/sensors/all'' (Some (PDict [(''reading_id'', PNum 2)]))
      (on_message ''aquaponics/sensors/all'' (Some (PDict [(''reading_id'', PNum 1)]))
       init_store)))
   = [PDict [(''reading_id'', PNum 1), (''diagnosis'', PStr ''Normal operation'')],
      PDict [(''reading_id'', PNum 2), (''diagnosis'', PStr ''Normal operation'')]]"
  by (simp add: get_data_def on_message_def tag_payload_def diagnose_def then_do_def
      dict_get_simps THRESHOLDS_def store_reading_def deque_append_def init_store_def
      MAX_READINGS_def py_slice_from_def)

section \<open>Diagnosis\<close>

lemma diagnose_conditions:
  assumes "py_lt (dict_get r ''dissolved_oxygen_mgL'' (PNum 10)) (do_low th) = Inr low_do"
    and "py_gt (dict_get r ''ammonia_mgL'' (PNum 0)) (ammonia_high th) = Inr high_ammonia"
    and "py_lt (dict_get r ''water_level_percent'' (PNum 100)) (water_level_low th)
           = Inr low_water_level"
    and "py_gt (dict_get r ''water_temp_C'' (PNum 20)) (temp_high th) = Inr high_temp"
    and "py_lt (dict_get r ''pH'' (PNum 7)) (ph_low th) = Inr low_ph"
  shows "diagnose th (PDict r) =
       Inr (if low_water_level \<and> low_do then ''Pump failure suspected''
            else if high_ammonia \<and> low_do then ''Overfeeding / biofilter stress''
            else if high_temp \<and> low_do then ''Thermal oxygen stress''
            else if low_water_level then ''Leak or evaporation''
            else if low_ph then ''pH too low - add buffer''
            else ''Normal operation'')"
  using assms by (simp add: diagnose_def then_do_def)

text \<open>
  C3.  For every threshold table and every reading whose five comparisons are defined
  (each field absent or a number), \<open>diagnose\<close> returns exactly one label, that of the
  first row of the rule table whose condition holds; in particular, when rule 1 (low water
  level and low dissolved oxygen) and rule 2 (high ammonia and low dissolved oxygen) both
  hold, it returns \<open>Pump failure suspected\<close>.
\<close>

theorem diagnose_first_match_wins:
  assumes "py_lt (dict_get r ''dissolved_oxygen_mgL'' (PNum 10)) (do_low th) = Inr low_do"
    and "py_gt (dict_get r ''ammonia_mgL'' (PNum 0)) (ammonia_high th) = Inr high_ammonia"
    and "py_lt (dict_get r ''water_level_percent'' (PNum 100)) (water_level_low th)
           = Inr low_water_level"
    and "py_gt (dict_get r ''water_temp_C'' (PNum 20)) (temp_high th) = Inr high_temp"
    and "py_lt (dict_get r ''pH'' (PNum 7)) (ph_low th) = Inr low_ph"
  shows "diagnose th (PDict r)
           = Inr (first_match (rule_table low_do high_ammonia low_water_level high_temp low_ph))
    \<and> (low_water_level \<and> low_do \<and> high_ammonia \<longrightarrow>
          diagnose th (PDict r) = Inr ''Pump failure suspected'')"
  unfolding diagnose_conditions [OF assms]
  by (simp add: first_match_def rule_table_def)

theorem diagnose_first_match_wins_witness:
  "py_lt (dict_get both_rules_reading ''dissolved_oxygen_mgL'' (PNum 10)) (do_low THRESHOLDS)
     = Inr True
   \<and> py_gt (dict_get both_rules_reading ''ammonia_mgL'' (PNum 0)) (ammonia_high THRESHOLDS)
     = Inr True
   \<and> py_lt (dict_get both_rules_reading ''water_level_percent'' (PNum 100))
       (water_level_low THRESHOLDS) = Inr True
   \<and> py_gt (dict_get both_rules_reading ''water_temp_C'' (PNum 20)) (temp_high THRESHOLDS)
     = Inr False
   \<and> py_lt (dict_get both_rules_reading ''pH'' (PNum 7)) (ph_low THRESHOLDS) = Inr False
   \<and> diagnose THRESHOLDS (PDict both_rules_reading) = Inr ''Pump failure suspected''"
proof -
  have h:
    "py_lt (dict_get both_rules_reading ''dissolved_oxygen_mgL'' (PNum 10)) (do_low THRESHOLDS)
       = Inr True"
    "py_gt (dict_get both_rules_reading ''ammonia_mgL'' (PNum 0)) (ammonia_high THRESHOLDS)
       = Inr True"
    "py_lt (dict_get both_rules_reading ''water_level_percent'' (PNum 100))
       (water_level_low THRESHOLDS) = Inr True"
    "py_gt (dict_get both_rules_reading ''water_temp_C'' (PNum 20)) (temp_high THRESHOLDS)
       = Inr False"
    "py_lt (dict_get both_rules_reading ''pH'' (PNum 7)) (ph_low THRESHOLDS) = Inr False"
    by (simp_all add: both_rules_reading_def dict_get_simps THRESHOLDS_def)
  from diagnose_first_match_wins [OF h] h show ?thesis
    by (simp add: first_match_def rule_table_def)
qed

text \<open>
  C9, as the claim states it, fails on the spelling of the label: for a reading whose pH
  5.5 is below the bound 6.0 and whose water level, ammonia and temperature conditions are
  false, \<open>diagnose\<close> does not return the label with a dash (U+2014, the bytes E2 80 94 in
  UTF-8) that the claim quotes.
\<close>

theorem low_ph_label_has_no_dash:
  "py_lt (dict_get [(''pH'', PNum 5.5)] ''pH'' (PNum 7)) (ph_low THRESHOLDS) = Inr True
   \<and> py_lt (dict_get [(''pH'', PNum 5.5)] ''water_level_percent'' (PNum 100))
       (water_level_low THRESHOLDS) = Inr False
   \<and> py_gt (dict_get [(''pH'', PNum 5.5)] ''ammonia_mgL'' (PNum 0)) (ammonia_high THRESHOLDS)
     = Inr False
   \<and> py_gt (dict_get [(''pH'', PNum 5.5)] ''water_temp_C'' (PNum 20)) (temp_high THRESHOLDS)
     = Inr False
   \<and> diagnose THRESHOLDS (PDict [(''pH'', PNum 5.5)])
       \<noteq> Inr (''pH too low '' @ [CHR 0xE2, CHR 0x80, CHR 0x94] @ '' add buffer'')"
  by (simp add: diagnose_def then_do_def dict_get_simps THRESHOLDS_def)

text \<open>
  C9, amended.  For every threshold table and every reading whose pH is below the low-pH
  bound while the water level, ammonia and temperature conditions are false (and whose
  dissolved-oxygen field is absent or a number), \<open>diagnose\<close> returns exactly the label
  \<open>pH too low - add buffer\<close>, spelt with the ASCII hyphen.
\<close>

theorem diagnose_low_ph_label:
  assumes "py_lt (dict_get r ''pH'' (PNum 7)) (ph_low th) = Inr True"
    and "py_lt (dict_get r ''water_level_percent'' (PNum 100)) (water_level_low th) = Inr False"
    and "py_gt (dict_get r ''ammonia_mgL'' (PNum 0)) (ammonia_high th) = Inr False"
    and "py_gt (dict_get r ''water_temp_C'' (PNum 20)) (temp_high th) = Inr False"
    and "py_lt (dict_get r ''dissolved_oxygen_mgL'' (PNum 10)) (do_low th) = Inr low_do"
  shows "diagnose th (PDict r) = Inr ''pH too low - add buffer''"
  using assms by (simp add: diagnose_def then_do_def)

theorem diagnose_low_ph_label_witness:
  "py_lt (dict_get [(''pH'', PNum 5.5)] ''pH'' (PNum 7)) (ph_low THRESHOLDS) = Inr True
   \<and> py_lt (dict_get [(''pH'', PNum 5.5)] ''water_level_percent'' (PNum 100))
       (water_level_low THRESHOLDS) = Inr False
   \<and> py_gt (dict_get [(''pH'', PNum 5.5)] ''ammonia_mgL'' (PNum 0)) (ammonia_high THRESHOLDS)
     = Inr False
   \<and> py_gt (dict_get [(''pH'', PNum 5.5)] ''water_temp_C'' (PNum 20)) (temp_high THRESHOLDS)
     = Inr False
   \<and> py_lt (dict_get [(''pH'', PNum 5.5)] ''dissolved_oxygen_mgL'' (PNum 10))
       (do_low THRESHOLDS) = Inr False
   \<and> diagnose THRESHOLDS (PDict [(''pH'', PNum 5.5)]) = Inr ''pH too low - add buffer''"
proof -
  have h:
    "py_lt (dict_get [(''pH'', PNum 5.5)] ''pH'' (PNum 7)) (ph_low THRESHOLDS) = Inr True"
    "py_lt (dict_get [(''pH'', PNum 5.5)] ''water_level_percent'' (PNum 100))
       (water_level_low THRESHOLDS) = Inr False"
    "py_gt (dict_get [(''pH'', PNum 5.5)] ''ammonia_mgL'' (PNum 0)) (ammonia_high THRESHOLDS)
       = Inr False"
    "py_gt (dict_get [(''pH'', PNum 5.5)] ''water_temp_C'' (PNum 20)) (temp_high THRESHOLDS)
       = Inr False"
    "py_lt (dict_get [(''pH'', PNum 5.5)] ''dissolved_oxygen_mgL'' (PNum 10))
       (do_low THRESHOLDS) = Inr False"
    by (simp_all add: dict_get_simps THRESHOLDS_def)
  from diagnose_low_ph_label [OF h] h show ?thesis by simp
qed

section \<open>Missing fields\<close>

lemma dict_get_missing: "map_of r k = None \<Longrightarrow> dict_get r k d = d"
  by (simp add: dict_get_def)

lemma map_of_dict_set: "map_of (dict_set k v r) k' = (if k' = k then Some v else map_of r k')"
  by (induction r) auto

lemma dict_set_not_Nil: "dict_set k v r \<noteq> []"
  by (cases r) auto

lemma dict_get_dict_set:
  "dict_get (dict_set k v r) k' d = (if k' = k then v else dict_get r k' d)"
  by (simp add: dict_get_def map_of_dict_set)

lemma present_when_lt:
  "py_lt (dict_get r k (PNum d)) t = Inr True \<Longrightarrow> \<not> d < t \<Longrightarrow>
   dict_item r k = Inr (dict_get r k PNone)"
  by (cases "map_of r k") (simp_all add: dict_get_def dict_item_def)

lemma present_when_gt:
  "py_gt (dict_get r k (PNum d)) t = Inr True \<Longrightarrow> \<not> d > t \<Longrightarrow>
   dict_item r k = Inr (dict_get r k PNone)"
  by (cases "map_of r k") (simp_all add: dict_get_def dict_item_def)

lemma get_alerts_value:
  assumes l: "latest_reading st = PDict r" and ne: "r \<noteq> []"
    and c1: "py_lt (dict_get r ''dissolved_oxygen_mgL'' (PNum 10)) (do_low THRESHOLDS) = Inr low_do"
    and c2: "py_gt (dict_get r ''ammonia_mgL'' (PNum 0)) (ammonia_high THRESHOLDS) = Inr high_ammonia"
    and c3: "py_lt (dict_get r ''water_level_percent'' (PNum 100)) (water_level_low THRESHOLDS)
           = Inr low_water_level"
    and c4: "py_gt (dict_get r ''water_temp_C'' (PNum 20)) (temp_high THRESHOLDS) = Inr high_temp"
    and c5: "py_lt (dict_get r ''pH'' (PNum 7)) (ph_low THRESHOLDS) = Inr low_ph"
  shows "get_alerts st
         = Inr (Alerts (alerts_for r low_do high_ammonia low_water_level high_temp low_ph)
                  (length (alerts_for r low_do high_ammonia low_water_level high_temp low_ph))
                  (dict_get r ''diagnosis'' (PStr ''Unknown'')))"
proof -
  have p1: "low_do \<Longrightarrow> dict_item r ''dissolved_oxygen_mgL''
      = Inr (dict_get r ''dissolved_oxygen_mgL'' PNone)"
    using c1 by (auto intro!: present_when_lt [where d = 10] simp: THRESHOLDS_def)
  have p2: "high_ammonia \<Longrightarrow> dict_item r ''ammonia_mgL'' = Inr (dict_get r ''ammonia_mgL'' PNone)"
    using c2 by (auto intro!: present_when_gt [where d = 0] simp: THRESHOLDS_def)
  have p3: "low_water_level \<Longrightarrow> dict_item r ''water_level_percent''
      = Inr (dict_get r ''water_level_percent'' PNone)"
    using c3 by (auto intro!: present_when_lt [where d = 100] simp: THRESHOLDS_def)
  have p4: "high_temp \<Longrightarrow> dict_item r ''water_temp_C'' = Inr (dict_get r ''water_temp_C'' PNone)"
    using c4 by (auto intro!: present_when_gt [where d = 20] simp: THRESHOLDS_def)
  have p5: "low_ph \<Longrightarrow> dict_item r ''pH'' = Inr (dict_get r ''pH'' PNone)"
    using c5 by (auto intro!: present_when_lt [where d = 7] simp: THRESHOLDS_def)
  show ?thesis
    using ne p1 p2 p3 p4 p5
    by (simp add: get_alerts_def l c1 c2 c3 c4 c5 then_do_def check_alert_def alerts_for_def)
qed

lemma absent_or_number_lt:
  "absent_or_number r k \<Longrightarrow> \<exists>c. py_lt (dict_get r k (PNum d)) t = Inr c"
  by (cases "map_of r k"; cases "the (map_of r k)")
     (simp_all add: absent_or_number_def dict_get_def)

lemma absent_or_number_gt:
  "absent_or_number r k \<Longrightarrow> \<exists>c. py_gt (dict_get r k (PNum d)) t = Inr c"
  by (cases "map_of r k"; cases "the (map_of r k)")
     (simp_all add: absent_or_number_def dict_get_def)


lemma all_missing_ingested:
  assumes "map_of r ''dissolved_oxygen_mgL'' = None" "map_of r ''ammonia_mgL'' = None"
    "map_of r ''water_level_percent'' = None" "map_of r ''water_temp_C'' = None"
    "map_of r ''pH'' = None" "map_of r ''pump_status'' = None"
  shows "get_alerts (on_message ''aquaponics/sensors/all'' (Some (PDict r)) st)
           = Inr (Alerts [] 0 (PStr ''Normal operation''))"
  using assms
  by (simp add: dict_get_missing THRESHOLDS_def diagnose_def then_do_def get_alerts_def
      on_message_def tag_payload_def store_reading_def check_alert_def dict_get_dict_set
      dict_set_not_Nil)

text \<open>
  C8.  Take any reading whose five threshold fields are each absent or a number, held as
  the latest reading of the store.  Then neither \<^verbatim>\<open>diagnose\<close> nor \<^verbatim>\<open>get_alerts\<close> raises,
  whichever fields are missing.  A missing field never triggers its condition: the
  diagnosis is none of the labels whose rule needs that field's condition, and
  \<^verbatim>\<open>get_alerts\<close> returns no alert for that field's sensor (likewise no \<open>pump\<close> alert when
  \<open>pump_status\<close> is missing).  So a reading with none of these six fields is diagnosed
  \<open>Normal operation\<close> and has an empty alert list, also once it has been ingested by
  \<^verbatim>\<open>on_message\<close>.
\<close>

theorem missing_fields_are_safe:
  assumes w1: "absent_or_number r ''dissolved_oxygen_mgL''"
    and w2: "absent_or_number r ''ammonia_mgL''"
    and w3: "absent_or_number r ''water_level_percent''"
    and w4: "absent_or_number r ''water_temp_C''"
    and w5: "absent_or_number r ''pH''"
    and l: "latest_reading st = PDict r"
  shows "(\<exists>label. diagnose THRESHOLDS (PDict r) = Inr label)
    \<and> (\<exists>resp. get_alerts st = Inr resp)
    \<and> (map_of r ''dissolved_oxygen_mgL'' = None \<longrightarrow>
          diagnose THRESHOLDS (PDict r)
            \<notin> {Inr ''Pump failure suspected'', Inr ''Overfeeding / biofilter stress'',
                Inr ''Thermal oxygen stress''}
        \<and> ''dissolved_oxygen'' \<notin> set (alert_sensors (get_alerts st)))
    \<and> (map_of r ''ammonia_mgL'' = None \<longrightarrow>
          diagnose THRESHOLDS (PDict r) \<noteq> Inr ''Overfeeding / biofilter stress''
        \<and> ''ammonia'' \<notin> set (alert_sensors (get_alerts st)))
    \<and> (map_of r ''water_level_percent'' = None \<longrightarrow>
          diagnose THRESHOLDS (PDict r)
            \<notin> {Inr ''Pump failure suspected'', Inr ''Leak or evaporation''}
        \<and> ''water_level'' \<notin> set (alert_sensors (get_alerts st)))
    \<and> (map_of r ''water_temp_C'' = None \<longrightarrow>
          diagnose THRESHOLDS (PDict r) \<noteq> Inr ''Thermal oxygen stress''
        \<and> ''temperature'' \<notin> set (alert_sensors (get_alerts st)))
    \<and> (map_of r ''pH'' = None \<longrightarrow>
          diagnose THRESHOLDS (PDict r) \<noteq> Inr ''pH too low - add buffer''
        \<and> ''pH'' \<notin> set (alert_sensors (get_alerts st)))
    \<and> (map_of r ''pump_status'' = None \<longrightarrow> ''pump'' \<notin> set (alert_sensors (get_alerts st)))
    \<and> (map_of r ''dissolved_oxygen_mgL'' = None \<and> map_of r ''ammonia_mgL'' = None
        \<and> map_of r ''water_level_percent'' = None \<and> map_of r ''water_temp_C'' = None
        \<and> map_of r ''pH'' = None \<and> map_of r ''pump_status'' = None \<longrightarrow>
          diagnose THRESHOLDS (PDict r) = Inr ''Normal operation''
        \<and> alert_sensors (get_alerts st) = []
        \<and> get_alerts (on_message ''aquaponics/sensors/all'' (Some (PDict r)) st')
            = Inr (Alerts [] 0 (PStr ''Normal operation'')))"
proof -
  from absent_or_number_lt [OF w1] obtain low_do
    where c1: "py_lt (dict_get r ''dissolved_oxygen_mgL'' (PNum 10)) (do_low THRESHOLDS) = Inr low_do"
    by blast
  from absent_or_number_gt [OF w2] obtain high_ammonia
    where c2: "py_gt (dict_get r ''ammonia_mgL'' (PNum 0)) (ammonia_high THRESHOLDS) = Inr high_ammonia"
    by blast
  from absent_or_number_lt [OF w3] obtain low_water_level
    where c3: "py_lt (dict_get r ''water_level_percent'' (PNum 100)) (water_level_low THRESHOLDS)
           = Inr low_water_level"
    by blast
  from absent_or_number_gt [OF w4] obtain high_temp
    where c4: "py_gt (dict_get r ''water_temp_C'' (PNum 20)) (temp_high THRESHOLDS) = Inr high_temp"
    by blast
  from absent_or_number_lt [OF w5] obtain low_ph
    where c5: "py_lt (dict_get r ''pH'' (PNum 7)) (ph_low THRESHOLDS) = Inr low_ph"
    by blast
  note D = diagnose_conditions [OF c1 c2 c3 c4 c5]
  have G: "get_alerts st
      = (if r = [] then Inr NoData
         else Inr (Alerts (alerts_for r low_do high_ammonia low_water_level high_temp low_ph)
                  (length (alerts_for r low_do high_ammonia low_water_level high_temp low_ph))
                  (dict_get r ''diagnosis'' (PStr ''Unknown''))))"
  proof (cases "r = []")
    case True
    then show ?thesis by (simp add: get_alerts_def l)
  next
    case False
    then show ?thesis using get_alerts_value [OF l False c1 c2 c3 c4 c5] by simp
  qed
  have m1: "\<not> low_do" if "map_of r ''dissolved_oxygen_mgL'' = None"
    using c1 that by (simp add: dict_get_missing THRESHOLDS_def)
  have m2: "\<not> high_ammonia" if "map_of r ''ammonia_mgL'' = None"
    using c2 that by (simp add: dict_get_missing THRESHOLDS_def)
  have m3: "\<not> low_water_level" if "map_of r ''water_level_percent'' = None"
    using c3 that by (simp add: dict_get_missing THRESHOLDS_def)
  have m4: "\<not> high_temp" if "map_of r ''water_temp_C'' = None"
    using c4 that by (simp add: dict_get_missing THRESHOLDS_def)
  have m5: "\<not> low_ph" if "map_of r ''pH'' = None"
    using c5 that by (simp add: dict_get_missing THRESHOLDS_def)
  have m6: "dict_get r ''pump_status'' PNone \<noteq> PStr ''FAILURE''" if "map_of r ''pump_status'' = None"
    using that by (simp add: dict_get_missing)
  show ?thesis
  proof (intro conjI impI)
    show "\<exists>label. diagnose THRESHOLDS (PDict r) = Inr label" unfolding D by blast
    show "\<exists>resp. get_alerts st = Inr resp" unfolding G by simp
  next
    assume a: "map_of r ''dissolved_oxygen_mgL'' = None"
    show "diagnose THRESHOLDS (PDict r)
            \<notin> {Inr ''Pump failure suspected'', Inr ''Overfeeding / biofilter stress'',
                Inr ''Thermal oxygen stress''}"
      unfolding D using m1 [OF a] by simp
    show "''dissolved_oxygen'' \<notin> set (alert_sensors (get_alerts st))"
      unfolding G using m1 [OF a] by (auto simp: alerts_for_def)
  next
    assume a: "map_of r ''ammonia_mgL'' = None"
    show "diagnose THRESHOLDS (PDict r) \<noteq> Inr ''Overfeeding / biofilter stress''"
      unfolding D using m2 [OF a] by simp
    show "''ammonia'' \<notin> set (alert_sensors (get_alerts st))"
      unfolding G using m2 [OF a] by (auto simp: alerts_for_def)
  next
    assume a: "map_of r ''water_level_percent'' = None"
    show "diagnose THRESHOLDS (PDict r)
            \<notin> {Inr ''Pump failure suspected'', Inr ''Leak or evaporation''}"
      unfolding D using m3 [OF a] by simp
    show "''water_level'' \<notin> set (alert_sensors (get_alerts st))"
      unfolding G using m3 [OF a] by (auto simp: alerts_for_def)
  next
    assume a: "map_of r ''water_temp_C'' = None"
    show "diagnose THRESHOLDS (PDict r) \<noteq> Inr ''Thermal oxygen stress''"
      unfolding D using m4 [OF a] by simp
    show "''temperature'' \<notin> set (alert_sensors (get_alerts st))"
      unfolding G using m4 [OF a] by (auto simp: alerts_for_def)
  next
    assume a: "map_of r ''pH'' = None"
    show "diagnose THRESHOLDS (PDict r) \<noteq> Inr ''pH too low - add buffer''"
      unfolding D using m5 [OF a] by simp
    show "''pH'' \<notin> set (alert_sensors (get_alerts st))"
      unfolding G using m5 [OF a] by (auto simp: alerts_for_def)
  next
    assume a: "map_of r ''pump_status'' = None"
    show "''pump'' \<notin> set (alert_sensors (get_alerts st))"
      unfolding G using m6 [OF a] by (auto simp: alerts_for_def)
  next
    assume a: "map_of r ''dissolved_oxygen_mgL'' = None \<and> map_of r ''ammonia_mgL'' = None
        \<and> map_of r ''water_level_percent'' = None \<and> map_of r ''water_temp_C'' = None
        \<and> map_of r ''pH'' = None \<and> map_of r ''pump_status'' = None"
    then have n: "\<not> low_do" "\<not> high_ammonia" "\<not> low_water_level" "\<not> high_temp" "\<not> low_ph"
      "dict_get r ''pump_status'' PNone \<noteq> PStr ''FAILURE''"
      using m1 m2 m3 m4 m5 m6 by simp_all
    show "diagnose THRESHOLDS (PDict r) = Inr ''Normal operation''"
      unfolding D using n by simp
    show "alert_sensors (get_alerts st) = []"
      unfolding G using n by (auto simp: alerts_for_def)
    show "get_alerts (on_message ''aquaponics/sensors/all'' (Some (PDict r)) st')
            = Inr (Alerts [] 0 (PStr ''Normal operation''))"
      using a by (intro all_missing_ingested) simp_all
  qed
qed

theorem missing_fields_are_safe_witness:
  "absent_or_number [] ''dissolved_oxygen_mgL'' \<and> absent_or_number [] ''ammonia_mgL''
   \<and> absent_or_number [] ''water_level_percent'' \<and> absent_or_number [] ''water_temp_C''
   \<and> absent_or_number [] ''pH'' \<and> latest_reading init_store = PDict []
   \<and> map_of ([] :: (string \<times> pyval) list) ''dissolved_oxygen_mgL'' = None
   \<and> map_of ([] :: (string \<times> pyval) list) ''ammonia_mgL'' = None
   \<and> map_of ([] :: (string \<times> pyval) list) ''water_level_percent'' = None
   \<and> map_of ([] :: (string \<times> pyval) list) ''water_temp_C'' = None
   \<and> map_of ([] :: (string \<times> pyval) list) ''pH'' = None
   \<and> map_of ([] :: (string \<times> pyval) list) ''pump_status'' = None
   \<and> diagnose THRESHOLDS (PDict []) = Inr ''Normal operation''
   \<and> get_alerts (on_message ''aquaponics/sensors/all'' (Some (PDict [])) init_store)
       = Inr (Alerts [] 0 (PStr ''Normal operation''))
   \<and> absent_or_number level_only_reading ''dissolved_oxygen_mgL''
   \<and> absent_or_number level_only_reading ''water_level_percent''
   \<and> map_of level_only_reading ''dissolved_oxygen_mgL'' = None
   \<and> diagnose THRESHOLDS (PDict level_only_reading)
       \<notin> {Inr ''Pump failure suspected'', Inr ''Overfeeding / biofilter stress'',
           Inr ''Thermal oxygen stress''}
   \<and> ''dissolved_oxygen''
       \<notin> set (alert_sensors (get_alerts (init_store\<lparr> latest_reading := PDict level_only_reading \<rparr>)))"
proof -
  have e: "absent_or_number [] ''dissolved_oxygen_mgL''" "absent_or_number [] ''ammonia_mgL''"
    "absent_or_number [] ''water_level_percent''" "absent_or_number [] ''water_temp_C''"
    "absent_or_number [] ''pH''" "latest_reading init_store = PDict []"
    by (simp_all add: absent_or_number_def init_store_def)
  have f: "absent_or_number level_only_reading ''dissolved_oxygen_mgL''"
    "absent_or_number level_only_reading ''ammonia_mgL''"
    "absent_or_number level_only_reading ''water_level_percent''"
    "absent_or_number level_only_reading ''water_temp_C''"
    "absent_or_number level_only_reading ''pH''"
    "latest_reading (init_store\<lparr> latest_reading := PDict level_only_reading \<rparr>)
       = PDict level_only_reading"
    by (simp_all add: absent_or_number_def level_only_reading_def)
  have g: "map_of level_only_reading ''dissolved_oxygen_mgL'' = None"
    by (simp add: level_only_reading_def)
  from missing_fields_are_safe [OF e, of init_store] missing_fields_are_safe [OF f] e f g show ?thesis by simp
qed

section \<open>Generating a reading: what changes in the device state\<close>

lemma get_readings_frame:
  "pump_on (snd (get_readings t s)) = pump_on s"
  "light_on (snd (get_readings t s)) = light_on s"
  "pump_failure (snd (get_readings t s)) = pump_failure s"
  "manual_light (snd (get_readings t s)) = manual_light s"
  "reading_count (snd (get_readings t s)) = reading_count s + 1"
  "reading_id (fst (get_readings t s)) = reading_count s + 1"
  by (simp_all add: get_readings_def Let_def split: prod.splits)

lemma sim_on_message_reading_count:
  "reading_count (sim_on_message topic decoded s) = reading_count s"
  by (simp add: sim_on_message_def set_pump_def set_light_def set_failure_simulation_def Let_def
      split: option.splits sum.splits)

lemma run_events_ids_above:
  "r \<in> set (run_events es s) \<Longrightarrow> reading_count s < reading_id r"
proof (induction es s rule: run_events.induct)
  case (1 s)
  then show ?case by simp
next
  case (2 topic decoded es s)
  then show ?case by (simp add: sim_on_message_reading_count)
next
  case (3 t es s)
  then show ?case by (auto simp: get_readings_frame)
qed

lemma run_events_sorted: "sorted_wrt (<) (map reading_id (run_events es s))"
proof (induction es s rule: run_events.induct)
  case (3 t es s)
  then show ?case
    using run_events_ids_above [of _ es "snd (get_readings t s)"]
    by (auto simp: get_readings_frame)
qed simp_all

text \<open>
  C10.  \<^verbatim>\<open>get_readings\<close> leaves \<open>pump_on\<close>, \<open>light_on\<close>, \<open>pump_failure\<close> and
  \<open>manual_light\<close> unchanged and increments the reading counter; the \<open>reading_id\<close> it returns
  is the incremented counter.  So the next reading generated has a greater \<open>reading_id\<close>,
  and in any run of ticks and control messages the ids of the readings generated are
  strictly increasing.
\<close>

theorem get_readings_frame_and_ids:
  "pump_on (snd (get_readings t s)) = pump_on s
   \<and> light_on (snd (get_readings t s)) = light_on s
   \<and> pump_failure (snd (get_readings t s)) = pump_failure s
   \<and> manual_light (snd (get_readings t s)) = manual_light s
   \<and> reading_count (snd (get_readings t s)) = reading_count s + 1
   \<and> reading_id (fst (get_readings t s)) = reading_count (snd (get_readings t s))
   \<and> reading_id (fst (get_readings t s)) < reading_id (fst (get_readings t' (snd (get_readings t s))))
   \<and> sorted_wrt (<) (map reading_id (run_events es s))"
  by (simp add: get_readings_frame run_events_sorted)

section \<open>The bounded history\<close>

lemma deque_append_items:
  "length (items d) \<le> maxlen d \<Longrightarrow>
   items (deque_append x d) = drop (length (items d) + 1 - maxlen d) (items d @ [x])"
proof (cases "length (items d) = maxlen d")
  case True
  then have "length (items d) + 1 - maxlen d = Suc 0" by simp
  with True show ?thesis
    by (simp add: deque_append_def Let_def drop_Suc del: drop_append)
next
  case False
  assume "length (items d) \<le> maxlen d"
  with False have "length (items d) < maxlen d" by simp
  then show ?thesis by (simp add: deque_append_def Let_def)
qed

lemma deque_append_maxlen: "maxlen (deque_append x d) = maxlen d"
  by (simp add: deque_append_def Let_def)

lemma on_message_bound:
  "length (items (sensor_readings st)) \<le> maxlen (sensor_readings st) \<Longrightarrow>
   length (items (sensor_readings (on_message topic decoded st)))
      \<le> maxlen (sensor_readings (on_message topic decoded st))
   \<and> maxlen (sensor_readings (on_message topic decoded st)) = maxlen (sensor_readings st)"
  by (auto simp: on_message_def store_reading_def deque_append_def Let_def
      split: option.splits sum.splits)

lemma drop_after_append:
  assumes "length xs \<le> C"
  shows "drop (length (drop (length xs + 1 - C) (xs @ [q]) @ qs) - C)
           (drop (length xs + 1 - C) (xs @ [q]) @ qs)
         = drop (length (xs @ q # qs) - C) (xs @ q # qs)"
proof -
  define k where "k = length xs + 1 - C"
  have k: "k \<le> length (xs @ [q])" by (simp add: k_def)
  have "drop k ((xs @ [q]) @ qs) = drop k (xs @ [q]) @ drop (k - length (xs @ [q])) qs"
    by (rule drop_append)
  moreover from k have "k - length (xs @ [q]) = 0" by simp
  moreover have "(xs @ [q]) @ qs = xs @ q # qs" by simp
  ultimately have e: "drop k (xs @ [q]) @ qs = drop k (xs @ q # qs)"
    by (simp del: drop_append append_assoc)
  have "length (drop k (xs @ q # qs)) - C + k = length (xs @ q # qs) - C"
    using assms by (simp add: k_def)
  then have "drop (length (drop k (xs @ q # qs)) - C) (drop k (xs @ q # qs))
      = drop (length (xs @ q # qs) - C) (xs @ q # qs)"
    by (simp only: drop_drop)
  then show ?thesis unfolding k_def [symmetric] e .
qed

lemma deliver_items:
  "list_all2 (\<lambda>p q. tag_payload p = Inr q) ps qs \<Longrightarrow>
   length (items (sensor_readings st)) \<le> maxlen (sensor_readings st) \<Longrightarrow>
   items (sensor_readings (deliver ps st))
     = drop (length (items (sensor_readings st) @ qs) - maxlen (sensor_readings st))
         (items (sensor_readings st) @ qs)
   \<and> maxlen (sensor_readings (deliver ps st)) = maxlen (sensor_readings st)"
proof (induction ps qs arbitrary: st rule: list_all2_induct)
  case Nil
  then show ?case by simp
next
  case (Cons p ps q qs)
  let ?st = "on_message ''aquaponics/sensors/all'' (Some p) st"
  have st': "?st = store_reading q st"
    using Cons.hyps(1) by (simp add: on_message_def)
  have b: "length (items (sensor_readings ?st)) \<le> maxlen (sensor_readings ?st)"
    and m: "maxlen (sensor_readings ?st) = maxlen (sensor_readings st)"
    using on_message_bound [OF Cons.prems, of "''aquaponics/sensors/all''" "Some p"] by auto
  have i: "items (sensor_readings ?st)
      = drop (length (items (sensor_readings st)) + 1 - maxlen (sensor_readings st))
          (items (sensor_readings st) @ [q])"
    using Cons.prems by (simp add: st' store_reading_def deque_append_items)
  have "items (sensor_readings (deliver (p # ps) st))
      = drop (length (items (sensor_readings ?st) @ qs) - maxlen (sensor_readings st))
          (items (sensor_readings ?st) @ qs)"
    using Cons.IH [OF b] m by simp
  also have "\<dots> = drop (length (items (sensor_readings st) @ q # qs) - maxlen (sensor_readings st))
          (items (sensor_readings st) @ q # qs)"
    unfolding i by (rule drop_after_append [OF Cons.prems])
  finally show ?case using Cons.IH [OF b] m by simp
qed

text \<open>
  C2.  From any store whose history respects its capacity \<open>C\<close> (the \<open>maxlen\<close> of the
  deque, 500 in the initial store), after delivering \<open>N > C\<close> payloads that are all
  ingested (\<open>qs\<close> are the payloads \<open>ps\<close> with their diagnosis attached) the history holds
  exactly \<open>C\<close> readings, the last \<open>C\<close> of them in delivery order.  And every call of
  \<^verbatim>\<open>on_message\<close>, whatever the topic and payload, keeps the length of the history at most
  the capacity and keeps the capacity.
\<close>

theorem history_fifo_bounded:
  "(list_all2 (\<lambda>p q. tag_payload p = Inr q) ps qs
     \<and> length (items (sensor_readings st)) \<le> maxlen (sensor_readings st)
     \<and> maxlen (sensor_readings st) < length ps \<longrightarrow>
       length (items (sensor_readings (deliver ps st))) = maxlen (sensor_readings st)
     \<and> items (sensor_readings (deliver ps st)) = drop (length qs - maxlen (sensor_readings st)) qs)
   \<and> (length (items (sensor_readings st)) \<le> maxlen (sensor_readings st) \<longrightarrow>
       length (items (sensor_readings (on_message topic decoded st)))
         \<le> maxlen (sensor_readings (on_message topic decoded st))
     \<and> maxlen (sensor_readings (on_message topic decoded st)) = maxlen (sensor_readings st))"
proof (intro conjI impI)
  assume a: "list_all2 (\<lambda>p q. tag_payload p = Inr q) ps qs
     \<and> length (items (sensor_readings st)) \<le> maxlen (sensor_readings st)
     \<and> maxlen (sensor_readings st) < length ps"
  then have l: "length ps = length qs" by (auto dest: list_all2_lengthD)
  from a deliver_items [of ps qs st]
  have "items (sensor_readings (deliver ps st))
     = drop (length (items (sensor_readings st) @ qs) - maxlen (sensor_readings st))
         (items (sensor_readings st) @ qs)" by simp
  moreover from a l have "length (items (sensor_readings st))
      \<le> length (items (sensor_readings st)) + length qs - maxlen (sensor_readings st)"
    by linarith
  ultimately show i: "items (sensor_readings (deliver ps st)) = drop (length qs - maxlen (sensor_readings st)) qs"
    by simp
  from a l show "length (items (sensor_readings (deliver ps st))) = maxlen (sensor_readings st)"
    unfolding i by simp
next
  assume "length (items (sensor_readings st)) \<le> maxlen (sensor_readings st)"
  from on_message_bound [OF this, of topic decoded]
  show "length (items (sensor_readings (on_message topic decoded st)))
         \<le> maxlen (sensor_readings (on_message topic decoded st))"
    and "maxlen (sensor_readings (on_message topic decoded st)) = maxlen (sensor_readings st)"
    by auto
qed

lemma tag_empty: "tag_payload (PDict []) = Inr (PDict [(''diagnosis'', PStr ''Normal operation'')])"
  by (simp add: tag_payload_def diagnose_def then_do_def dict_get_simps THRESHOLDS_def)

theorem history_fifo_bounded_witness:
  "list_all2 (\<lambda>p q. tag_payload p = Inr q) (replicate 501 (PDict []))
      (replicate 501 (PDict [(''diagnosis'', PStr ''Normal operation'')]))
   \<and> length (items (sensor_readings init_store)) \<le> maxlen (sensor_readings init_store)
   \<and> maxlen (sensor_readings init_store) < length (replicate 501 (PDict []))
   \<and> length (items (sensor_readings (deliver (replicate 501 (PDict [])) init_store))) = 500
   \<and> items (sensor_readings (deliver (replicate 501 (PDict [])) init_store))
       = replicate 500 (PDict [(''diagnosis'', PStr ''Normal operation'')])
   \<and> length (items (sensor_readings (on_message ''aquaponics/sensors/all'' (Some (PDict [])) init_store))) \<le> 500"
  using history_fifo_bounded [of "replicate 501 (PDict [])" "replicate 501 (PDict [(''diagnosis'', PStr ''Normal operation'')])" init_store
       "''aquaponics/sensors/all''" "Some (PDict [])"]
  by (simp add: list_all2_conv_all_nth tag_empty init_store_def MAX_READINGS_def)

text \<open>
  For a positive limit, \<^verbatim>\<open>GET /data\<close> does return the most recent \<open>min(limit, length)\<close>
  readings, oldest first.
\<close>

lemma get_data_positive_limit:
  "0 < limit \<Longrightarrow>
   readings (get_data limit st)
     = drop (length (items (sensor_readings st)) - nat limit) (items (sensor_readings st))
   \<and> count (get_data limit st) = min (nat limit) (length (items (sensor_readings st)))"
  by (auto simp: get_data_def py_slice_from_def Let_def nat_diff_distrib' max_def)

section \<open>Rounding\<close>

lemma round_half_even_of_int: "round_half_even (of_int k) = k"
  by (simp add: round_half_even_def)

lemma round_half_even_error: "\<bar>of_int (round_half_even y) - y\<bar> \<le> 1 / 2"
  unfolding round_half_even_def Let_def by (auto simp: abs_if) linarith+

lemma round_half_even_mono:
  assumes "y \<le> y'"
  shows "round_half_even y \<le> round_half_even y'"
proof (cases "\<lfloor>y\<rfloor> = \<lfloor>y'\<rfloor>")
  case True
  with assms show ?thesis
    unfolding round_half_even_def Let_def by auto
next
  case False
  with assms have "\<lfloor>y\<rfloor> < \<lfloor>y'\<rfloor>" using floor_mono [OF assms] by linarith
  moreover have "round_half_even y \<le> \<lfloor>y\<rfloor> + 1"
    unfolding round_half_even_def Let_def by auto
  moreover have "\<lfloor>y'\<rfloor> \<le> round_half_even y'"
    unfolding round_half_even_def Let_def by auto
  ultimately show ?thesis by linarith
qed

lemma py_round_zero: "py_round 0 n = 0"
  using round_half_even_of_int [of 0] by (simp add: py_round_def)

lemma py_round_mono: "x \<le> x' \<Longrightarrow> py_round x n \<le> py_round x' n"
  by (simp add: py_round_def divide_right_mono round_half_even_mono)

lemma py_round_nonneg: "0 \<le> x \<Longrightarrow> 0 \<le> py_round x n"
  using py_round_mono [of 0 x n] by (simp add: py_round_zero)

lemma py_round_error: "\<bar>py_round x n - x\<bar> \<le> 1 / (2 * 10 ^ n)"
proof -
  have h: "\<bar>of_int (round_half_even (x * 10 ^ n)) - x * 10 ^ n\<bar> \<le> 1 / 2"
    by (rule round_half_even_error)
  have "\<bar>of_int (round_half_even (x * 10 ^ n)) - x * 10 ^ n\<bar> / 10 ^ n \<le> (1 / 2) / 10 ^ n"
    by (rule divide_right_mono [OF h]) simp
  moreover have "\<bar>of_int (round_half_even (x * 10 ^ n)) - x * 10 ^ n\<bar> / 10 ^ n
      = \<bar>py_round x n - x\<bar>"
  proof -
    have "py_round x n - x = (of_int (round_half_even (x * 10 ^ n)) - x * 10 ^ n) / 10 ^ n"
      by (simp add: py_round_def diff_divide_distrib)
    then show ?thesis by (simp only: abs_divide) simp
  qed
  ultimately show ?thesis by simp
qed

lemma py_round_pos_imp: "0 < py_round x n \<Longrightarrow> 0 < x"
  using py_round_mono [of x 0 n] by (auto simp: py_round_zero not_less [symmetric])


section \<open>Pump failure simulation\<close>

lemma get_readings_pump_status:
  "pump_status (fst (get_readings t s))
     = (if truthy (pump_failure s) then ''FAILURE'' else if \<not> pump_on s then ''OFF'' else ''ON'')"
  by (simp add: get_readings_def Let_def)

lemma get_readings_water_level:
  "water_level_percent (fst (get_readings t s))
     = py_round (max 0 (py_round (95 + gauss 0 2 (z_water_level t)) 1
         - (if truthy (pump_failure s) then 20 else if \<not> pump_on s then 5 else 0))) 1"
  by (simp add: get_readings_def Let_def)

lemma get_readings_dissolved_oxygen:
  "dissolved_oxygen_mgL (fst (get_readings t s))
     = py_round (max 0 (daily_cycle 6.5 0.6 0.15 (hour_do t) (z_do t)
         - (if truthy (pump_failure s) then 2 else if \<not> pump_on s then 1 else 0))) 2"
  by (simp add: get_readings_def Let_def)

lemma penalty_lower:
  assumes gap: "1 / 10 ^ n < p1 - p0"
  shows "0 \<le> py_round (max 0 (w - p1)) n"
    and "py_round (max 0 (w - p1)) n \<le> py_round (max 0 (w - p0)) n"
    and "0 < py_round (max 0 (w - p0)) n \<Longrightarrow>
         py_round (max 0 (w - p1)) n < py_round (max 0 (w - p0)) n"
proof -
  show "0 \<le> py_round (max 0 (w - p1)) n" by (simp add: py_round_nonneg)
  have "0 < (1::real) / 10 ^ n" by simp
  with gap have le: "p0 \<le> p1" by linarith
  then show "py_round (max 0 (w - p1)) n \<le> py_round (max 0 (w - p0)) n"
    by (intro py_round_mono) auto
  assume pos: "0 < py_round (max 0 (w - p0)) n"
  then have wp: "0 < w - p0" using py_round_pos_imp [OF pos] by (simp add: max_def split: if_splits)
  show "py_round (max 0 (w - p1)) n < py_round (max 0 (w - p0)) n"
  proof (cases "w - p1 \<le> 0")
    case True
    then have "max 0 (w - p1) = 0" by simp
    with pos show ?thesis by (simp add: py_round_zero)
  next
    case False
    then have m1: "max 0 (w - p1) = w - p1" by simp
    from wp have m0: "max 0 (w - p0) = w - p0" by simp
    have e1: "py_round (w - p1) n \<le> (w - p1) + 1 / (2 * 10 ^ n)"
      using py_round_error [of "w - p1" n] by (simp add: abs_le_iff)
    have e0: "(w - p0) - 1 / (2 * 10 ^ n) \<le> py_round (w - p0) n"
      using py_round_error [of "w - p0" n] by (simp add: abs_le_iff)
    have "(1::real) / (2 * 10 ^ n) + 1 / (2 * 10 ^ n) = 1 / 10 ^ n" by simp
    with gap e0 e1 show ?thesis unfolding m0 m1 by linarith
  qed
qed

lemma py_round_bounds:
  "x - 1 / (2 * 10 ^ n) \<le> py_round x n"
  "py_round x n \<le> x + 1 / (2 * 10 ^ n)"
  using py_round_error [of x n] unfolding abs_le_iff by linarith+

lemma py_round_lower1: "x - 1 / 20 \<le> py_round x 1"
  using py_round_bounds(1) [of x 1] by simp

lemma py_round_lower2: "x - 1 / 200 \<le> py_round x 2"
  using py_round_bounds(1) [of x 2] by simp

lemma water_level_positive:
  assumes "- 40 \<le> z" "p \<le> 5"
  shows "0 < py_round (max 0 (py_round (95 + gauss 0 2 z) 1 - p)) 1"
proof -
  define w where "w = py_round (95 + gauss 0 2 z) 1"
  have "95 + gauss 0 2 z - 1 / 20 \<le> w"
    unfolding w_def by (rule py_round_lower1)
  moreover have "gauss 0 2 z = z * 2" by (simp add: gauss_def)
  ultimately have w: "9 \<le> w - p" using assms by linarith
  then have m: "max 0 (w - p) = w - p" by simp
  have "w - p - 1 / 20 \<le> py_round (w - p) 1" by (rule py_round_lower1)
  with w have "0 < py_round (w - p) 1" by linarith
  then show ?thesis unfolding w_def [symmetric] m .
qed

lemma dissolved_oxygen_positive:
  assumes "- 30 \<le> z" "p \<le> 1"
  shows "0 < py_round (max 0 (daily_cycle 6.5 0.6 0.15 h z - p)) 2"
proof -
  define s where "s = sin (2 * pi * real h / 24)"
  define v where "v = 6.5 + 0.6 * s + gauss 0 0.15 z"
  define d where "d = py_round v 2"
  have dc: "daily_cycle 6.5 0.6 0.15 h z = d"
    by (simp add: daily_cycle_def Let_def v_def s_def d_def)
  have "- 1 \<le> s" unfolding s_def by (rule sin_ge_minus_one)
  moreover have "v = 13 / 2 + 3 / 5 * s + 3 * z / 20" by (simp add: v_def gauss_def)
  ultimately have v: "7 / 5 \<le> v" using assms by linarith
  have "v - 1 / 200 \<le> d" unfolding d_def by (rule py_round_lower2)
  with v assms have w: "3 / 10 \<le> d - p" by linarith
  then have m: "max 0 (d - p) = d - p" by simp
  have "d - p - 1 / 200 \<le> py_round (d - p) 2" by (rule py_round_lower2)
  with w have "0 < py_round (d - p) 2" by linarith
  then show ?thesis unfolding dc m .
qed

text \<open>
  C4.  With failure simulation enabled the next reading has \<open>pump_status\<close> \<open>FAILURE\<close>, and
  its water level and dissolved oxygen are never negative.  They are strictly lower than
  those of the same tick (same clock readings, same random samples) with failure
  simulation disabled for every sample that \<^verbatim>\<open>random.gauss\<close> can return: its samples
  lie within 8.58 standard deviations of the mean, and strictness is proved for every
  water-level sample \<open>- 40 \<le> z_water_level\<close> and every dissolved-oxygen sample
  \<open>- 30 \<le> z_do\<close>.  For any sample at all the failure reading is never higher than the
  other, and strictly lower whenever the other is positive.
\<close>

theorem failure_reading_lower_and_clamped:
  "pump_status (fst (get_readings t (set_failure_simulation (PBool True) s))) = ''FAILURE''
   \<and> 0 \<le> water_level_percent (fst (get_readings t (set_failure_simulation (PBool True) s)))
   \<and> 0 \<le> dissolved_oxygen_mgL (fst (get_readings t (set_failure_simulation (PBool True) s)))
   \<and> water_level_percent (fst (get_readings t (set_failure_simulation (PBool True) s)))
       \<le> water_level_percent (fst (get_readings t (set_failure_simulation (PBool False) s)))
   \<and> dissolved_oxygen_mgL (fst (get_readings t (set_failure_simulation (PBool True) s)))
       \<le> dissolved_oxygen_mgL (fst (get_readings t (set_failure_simulation (PBool False) s)))
   \<and> (0 < water_level_percent (fst (get_readings t (set_failure_simulation (PBool False) s))) \<longrightarrow>
        water_level_percent (fst (get_readings t (set_failure_simulation (PBool True) s)))
          < water_level_percent (fst (get_readings t (set_failure_simulation (PBool False) s))))
   \<and> (0 < dissolved_oxygen_mgL (fst (get_readings t (set_failure_simulation (PBool False) s))) \<longrightarrow>
        dissolved_oxygen_mgL (fst (get_readings t (set_failure_simulation (PBool True) s)))
          < dissolved_oxygen_mgL (fst (get_readings t (set_failure_simulation (PBool False) s))))
   \<and> (- 40 \<le> z_water_level t \<longrightarrow>
        water_level_percent (fst (get_readings t (set_failure_simulation (PBool True) s)))
          < water_level_percent (fst (get_readings t (set_failure_simulation (PBool False) s))))
   \<and> (- 30 \<le> z_do t \<longrightarrow>
        dissolved_oxygen_mgL (fst (get_readings t (set_failure_simulation (PBool True) s)))
          < dissolved_oxygen_mgL (fst (get_readings t (set_failure_simulation (PBool False) s))))"
proof -
  define w where "w = py_round (95 + gauss 0 2 (z_water_level t)) 1"
  define d where "d = daily_cycle 6.5 0.6 0.15 (hour_do t) (z_do t)"
  define pw :: real where "pw = (if \<not> pump_on s then 5 else 0)"
  define pd :: real where "pd = (if \<not> pump_on s then 1 else 0)"
  have w1: "water_level_percent (fst (get_readings t (set_failure_simulation (PBool True) s)))
      = py_round (max 0 (w - 20)) 1"
    and w0: "water_level_percent (fst (get_readings t (set_failure_simulation (PBool False) s)))
      = py_round (max 0 (w - pw)) 1"
    and d1: "dissolved_oxygen_mgL (fst (get_readings t (set_failure_simulation (PBool True) s)))
      = py_round (max 0 (d - 2)) 2"
    and d0: "dissolved_oxygen_mgL (fst (get_readings t (set_failure_simulation (PBool False) s)))
      = py_round (max 0 (d - pd)) 2"
    and ps: "pump_status (fst (get_readings t (set_failure_simulation (PBool True) s))) = ''FAILURE''"
    by (simp_all add: get_readings_water_level get_readings_dissolved_oxygen
        get_readings_pump_status set_failure_simulation_def w_def d_def pw_def pd_def)
  have gw: "1 / 10 ^ 1 < 20 - pw" and gd: "1 / 10 ^ 2 < 2 - pd"
    by (simp_all add: pw_def pd_def)
  have pw5: "pw \<le> 5" and pd1: "pd \<le> 1" by (simp_all add: pw_def pd_def)
  note W = penalty_lower [OF gw, of w] and D = penalty_lower [OF gd, of d]
  have "- 40 \<le> z_water_level t \<Longrightarrow> 0 < py_round (max 0 (w - pw)) 1"
    unfolding w_def by (rule water_level_positive [OF _ pw5])
  moreover have "- 30 \<le> z_do t \<Longrightarrow> 0 < py_round (max 0 (d - pd)) 2"
    unfolding d_def by (rule dissolved_oxygen_positive [OF _ pd1])
  ultimately show ?thesis
    unfolding w1 w0 d1 d0 ps using W D by blast
qed

theorem failure_reading_lower_and_clamped_witness:
  "0 < water_level_percent (fst (get_readings zero_tick (set_failure_simulation (PBool False) init_sim)))
   \<and> 0 < dissolved_oxygen_mgL (fst (get_readings zero_tick (set_failure_simulation (PBool False) init_sim)))
   \<and> - 40 \<le> z_water_level zero_tick \<and> - 30 \<le> z_do zero_tick
   \<and> pump_status (fst (get_readings zero_tick (set_failure_simulation (PBool True) init_sim))) = ''FAILURE''
   \<and> water_level_percent (fst (get_readings zero_tick (set_failure_simulation (PBool True) init_sim)))
       < water_level_percent (fst (get_readings zero_tick (set_failure_simulation (PBool False) init_sim)))
   \<and> dissolved_oxygen_mgL (fst (get_readings zero_tick (set_failure_simulation (PBool True) init_sim)))
       < dissolved_oxygen_mgL (fst (get_readings zero_tick (set_failure_simulation (PBool False) init_sim)))"
proof -
  have z: "- 40 \<le> z_water_level zero_tick" "- 30 \<le> z_do zero_tick"
    by (simp_all add: zero_tick_def)
  have "water_level_percent (fst (get_readings zero_tick (set_failure_simulation (PBool False) init_sim))) = 95"
    by (simp add: get_readings_water_level set_failure_simulation_def init_sim_def
      zero_tick_def gauss_def py_round_def round_half_even_def)
  moreover have "dissolved_oxygen_mgL (fst (get_readings zero_tick (set_failure_simulation (PBool False) init_sim))) = 6.5"
    by (simp add: get_readings_dissolved_oxygen set_failure_simulation_def init_sim_def
      zero_tick_def gauss_def daily_cycle_def py_round_def round_half_even_def)
  ultimately show ?thesis using failure_reading_lower_and_clamped [of zero_tick init_sim] z by simp
qed

section \<open>Atomic ingestion\<close>

lemma deque_append_last:
  "0 < maxlen d \<Longrightarrow> items (deque_append p d) \<noteq> [] \<and> last (items (deque_append p d)) = p"
proof -
  assume m: "0 < maxlen d"
  show ?thesis
  proof (cases "items d")
    case Nil
    with m show ?thesis by (simp add: deque_append_def Let_def)
  next
    case (Cons x xs)
    then show ?thesis by (simp add: deque_append_def Let_def)
  qed
qed

lemma inv_init: "lock_inv init_config"
  by (simp add: lock_inv_def init_config_def init_store_def MAX_READINGS_def consistent_def
      consistent_pair_def)

lemma reader_ok_outside: "\<not> in_section r \<Longrightarrow> reader_ok st r = reader_ok st' r"
  by (cases r) simp_all

lemma lock_invD:
  assumes "lock_inv c"
  shows "(wpc c \<noteq> W_idle) = (lock c = Some Writer)"
    and "in_section (readers c i) = (lock c = Some (Reader i))"
    and "0 < maxlen (sensor_readings (shared c))"
    and "writer_ok (shared c) (wpc c)"
    and "reader_ok (shared c) (readers c i)"
  using assms by (simp_all add: lock_inv_def)

lemma lock_invI:
  assumes "(wpc c \<noteq> W_idle) = (lock c = Some Writer)"
    and "\<And>i. in_section (readers c i) = (lock c = Some (Reader i))"
    and "0 < maxlen (sensor_readings (shared c))"
    and "writer_ok (shared c) (wpc c)"
    and "\<And>i. reader_ok (shared c) (readers c i)"
  shows "lock_inv c"
  using assms by (simp add: lock_inv_def)

lemma inv_WAcquire:
  assumes "lock_inv c" "fire (WAcquire payload) c = Some c'"
  shows "lock_inv c'"
proof -
  from assms(2) obtain p where f: "lock c = None" "wpc c = W_idle"
    and c': "c' = c\<lparr> lock := Some Writer, wpc := W_locked p \<rparr>"
    by (auto split: sum.splits if_splits)
  note d = lock_invD [OF assms(1)]
  show ?thesis unfolding c'
  proof (rule lock_invI)
    show "(wpc (c\<lparr>lock := Some Writer, wpc := W_locked p\<rparr>) \<noteq> W_idle)
        = (lock (c\<lparr>lock := Some Writer, wpc := W_locked p\<rparr>) = Some Writer)" by simp
    show "in_section (readers (c\<lparr>lock := Some Writer, wpc := W_locked p\<rparr>) i)
        = (lock (c\<lparr>lock := Some Writer, wpc := W_locked p\<rparr>) = Some (Reader i))" for i
      using d(2) [of i] f by simp
    show "0 < maxlen (sensor_readings (shared (c\<lparr>lock := Some Writer, wpc := W_locked p\<rparr>)))"
      using d(3) by simp
    show "writer_ok (shared (c\<lparr>lock := Some Writer, wpc := W_locked p\<rparr>))
        (wpc (c\<lparr>lock := Some Writer, wpc := W_locked p\<rparr>))"
      using d(4) f by simp
    show "reader_ok (shared (c\<lparr>lock := Some Writer, wpc := W_locked p\<rparr>))
        (readers (c\<lparr>lock := Some Writer, wpc := W_locked p\<rparr>) i)" for i
      using d(5) [of i] by simp
  qed
qed

lemma inv_WSetLatest:
  assumes "lock_inv c" "fire WSetLatest c = Some c'"
  shows "lock_inv c'"
proof -
  from assms(2) obtain p where p: "wpc c = W_locked p"
    and c': "c' = c\<lparr> shared := (shared c)\<lparr> latest_reading := p \<rparr>, wpc := W_latest_set p \<rparr>"
    by (auto split: writer_pc.splits)
  note d = lock_invD [OF assms(1)]
  from d(1) p have w: "lock c = Some Writer" by simp
  have n: "\<not> in_section (readers c i)" for i using d(2) [of i] w by simp
  show ?thesis unfolding c'
  proof (rule lock_invI)
    show "(wpc (c\<lparr>shared := (shared c)\<lparr>latest_reading := p\<rparr>, wpc := W_latest_set p\<rparr>) \<noteq> W_idle)
        = (lock (c\<lparr>shared := (shared c)\<lparr>latest_reading := p\<rparr>, wpc := W_latest_set p\<rparr>)
            = Some Writer)"
      using w by simp
    show "in_section (readers (c\<lparr>shared := (shared c)\<lparr>latest_reading := p\<rparr>,
            wpc := W_latest_set p\<rparr>) i)
        = (lock (c\<lparr>shared := (shared c)\<lparr>latest_reading := p\<rparr>, wpc := W_latest_set p\<rparr>)
            = Some (Reader i))" for i
      using d(2) [of i] by simp
    show "0 < maxlen (sensor_readings (shared (c\<lparr>shared := (shared c)\<lparr>latest_reading := p\<rparr>,
            wpc := W_latest_set p\<rparr>)))"
      using d(3) by simp
    show "writer_ok (shared (c\<lparr>shared := (shared c)\<lparr>latest_reading := p\<rparr>, wpc := W_latest_set p\<rparr>))
        (wpc (c\<lparr>shared := (shared c)\<lparr>latest_reading := p\<rparr>, wpc := W_latest_set p\<rparr>))"
      by simp
    show "reader_ok (shared (c\<lparr>shared := (shared c)\<lparr>latest_reading := p\<rparr>, wpc := W_latest_set p\<rparr>))
        (readers (c\<lparr>shared := (shared c)\<lparr>latest_reading := p\<rparr>, wpc := W_latest_set p\<rparr>) i)" for i
      using d(5) [of i] reader_ok_outside [OF n [of i], of "(shared c)\<lparr>latest_reading := p\<rparr>" "shared c"]
      by simp
  qed
qed

lemma inv_WAppend:
  assumes "lock_inv c" "fire WAppend c = Some c'"
  shows "lock_inv c'"
proof -
  define st where "st = (shared c)\<lparr> sensor_readings := deque_append (latest_reading (shared c))
      (sensor_readings (shared c)) \<rparr>"
  from assms(2) obtain p where p: "wpc c = W_latest_set p"
    and c0: "c' = c\<lparr> shared := (shared c)\<lparr> sensor_readings :=
                        deque_append p (sensor_readings (shared c)) \<rparr>, wpc := W_appended \<rparr>"
    by (auto split: writer_pc.splits)
  note d = lock_invD [OF assms(1)]
  from d(4) p have l: "latest_reading (shared c) = p" by simp
  from c0 l have c': "c' = c\<lparr> shared := st, wpc := W_appended \<rparr>" by (simp add: st_def)
  from d(1) p have w: "lock c = Some Writer" by simp
  have n: "\<not> in_section (readers c i)" for i using d(2) [of i] w by simp
  have k: "consistent st"
    using deque_append_last [OF d(3), of "latest_reading (shared c)"]
    by (simp add: st_def consistent_def consistent_pair_def)
  have m: "0 < maxlen (sensor_readings st)"
    using d(3) by (simp add: st_def deque_append_maxlen)
  show ?thesis unfolding c'
  proof (rule lock_invI)
    show "(wpc (c\<lparr>shared := st, wpc := W_appended\<rparr>) \<noteq> W_idle)
        = (lock (c\<lparr>shared := st, wpc := W_appended\<rparr>) = Some Writer)"
      using w by simp
    show "in_section (readers (c\<lparr>shared := st, wpc := W_appended\<rparr>) i)
        = (lock (c\<lparr>shared := st, wpc := W_appended\<rparr>) = Some (Reader i))" for i
      using d(2) [of i] by simp
    show "0 < maxlen (sensor_readings (shared (c\<lparr>shared := st, wpc := W_appended\<rparr>)))"
      using m by simp
    show "writer_ok (shared (c\<lparr>shared := st, wpc := W_appended\<rparr>))
        (wpc (c\<lparr>shared := st, wpc := W_appended\<rparr>))"
      using k by simp
    show "reader_ok (shared (c\<lparr>shared := st, wpc := W_appended\<rparr>))
        (readers (c\<lparr>shared := st, wpc := W_appended\<rparr>) i)" for i
      using d(5) [of i] reader_ok_outside [OF n [of i], of st "shared c"] by simp
  qed
qed

lemma inv_WRelease:
  assumes "lock_inv c" "fire WRelease c = Some c'"
  shows "lock_inv c'"
proof -
  from assms(2) have p: "wpc c = W_appended" and c': "c' = c\<lparr> lock := None, wpc := W_idle \<rparr>"
    by (auto split: writer_pc.splits)
  note d = lock_invD [OF assms(1)]
  from d(1) p have w: "lock c = Some Writer" by simp
  from d(4) p have k: "consistent (shared c)" by simp
  show ?thesis unfolding c'
  proof (rule lock_invI)
    show "(wpc (c\<lparr>lock := None, wpc := W_idle\<rparr>) \<noteq> W_idle)
        = (lock (c\<lparr>lock := None, wpc := W_idle\<rparr>) = Some Writer)" by simp
    show "in_section (readers (c\<lparr>lock := None, wpc := W_idle\<rparr>) i)
        = (lock (c\<lparr>lock := None, wpc := W_idle\<rparr>) = Some (Reader i))" for i
      using d(2) [of i] w by simp
    show "0 < maxlen (sensor_readings (shared (c\<lparr>lock := None, wpc := W_idle\<rparr>)))"
      using d(3) by simp
    show "writer_ok (shared (c\<lparr>lock := None, wpc := W_idle\<rparr>)) (wpc (c\<lparr>lock := None, wpc := W_idle\<rparr>))"
      using k by simp
    show "reader_ok (shared (c\<lparr>lock := None, wpc := W_idle\<rparr>))
        (readers (c\<lparr>lock := None, wpc := W_idle\<rparr>) i)" for i
      using d(5) [of i] by simp
  qed
qed

lemma inv_reader_step:
  assumes "lock_inv c"
    and l: "lock c' = (if in_section r' then Some (Reader i) else None)"
    and o: "in_section (readers c i) \<or> lock c = None"
    and c': "shared c' = shared c" "wpc c' = wpc c" "readers c' = (readers c)(i := r')"
    and ok: "reader_ok (shared c) r'"
  shows "lock_inv c'"
proof -
  note d = lock_invD [OF assms(1)]
  from o d(2) [of i] have nw: "lock c \<noteq> Some Writer" by auto
  with d(1) have wi: "wpc c = W_idle" by simp
  have others: "\<not> in_section (readers c j)" if "j \<noteq> i" for j
    using o d(2) [of i] d(2) [of j] that by auto
  show ?thesis
  proof (rule lock_invI)
    show "(wpc c' \<noteq> W_idle) = (lock c' = Some Writer)"
      using wi by (simp add: c' l)
    show "in_section (readers c' j) = (lock c' = Some (Reader j))" for j
      using others [of j] by (simp add: c' l)
    show "0 < maxlen (sensor_readings (shared c'))" using d(3) by (simp add: c')
    show "writer_ok (shared c') (wpc c')" using d(4) by (simp add: c')
    show "reader_ok (shared c') (readers c' j)" for j
      using d(5) [of j] ok by (simp add: c')
  qed
qed

lemma inv_RAcquire:
  assumes "lock_inv c" "fire (RAcquire i) c = Some c'"
  shows "lock_inv c'"
proof -
  from assms(2) have f: "lock c = None" "readers c i = R_idle"
    and c': "c' = c\<lparr> lock := Some (Reader i), readers := (readers c)(i := R_locked) \<rparr>"
    by (auto split: if_splits)
  show ?thesis
    by (rule inv_reader_step [OF assms(1), where i = i and r' = R_locked])
       (simp_all add: c' f)
qed

lemma inv_RReadHistory:
  assumes "lock_inv c" "fire (RReadHistory i) c = Some c'"
  shows "lock_inv c'"
proof -
  from assms(2) have f: "readers c i = R_locked"
    and c': "c' = c\<lparr> readers := (readers c)(i := R_read_history (items (sensor_readings (shared c)))) \<rparr>"
    by (auto split: reader_pc.splits)
  from lock_invD(2) [OF assms(1), of i] f have o: "lock c = Some (Reader i)" by simp
  show ?thesis
    by (rule inv_reader_step [OF assms(1), where i = i
          and r' = "R_read_history (items (sensor_readings (shared c)))"])
       (simp_all add: c' f o)
qed

lemma inv_RReadLatest:
  assumes "lock_inv c" "fire (RReadLatest i) c = Some c'"
  shows "lock_inv c'"
proof -
  from assms(2) obtain h where f: "readers c i = R_read_history h"
    and c': "c' = c\<lparr> readers := (readers c)(i := R_read_both h (latest_reading (shared c))) \<rparr>"
    by (auto split: reader_pc.splits)
  note d = lock_invD [OF assms(1)]
  from d(2) [of i] f have o: "lock c = Some (Reader i)" by simp
  with d(1) have "wpc c = W_idle" by simp
  with d(4) have k: "consistent (shared c)" by simp
  from d(5) [of i] f have "h = items (sensor_readings (shared c))" by simp
  with k have ok: "consistent_pair h (latest_reading (shared c))" by (simp add: consistent_def)
  show ?thesis
    by (rule inv_reader_step [OF assms(1), where i = i
          and r' = "R_read_both h (latest_reading (shared c))"])
       (simp_all add: c' f o ok)
qed

lemma inv_RRelease:
  assumes "lock_inv c" "fire (RRelease i) c = Some c'"
  shows "lock_inv c'"
proof -
  from assms(2) obtain h l where f: "readers c i = R_read_both h l"
    and c': "c' = c\<lparr> lock := None, readers := (readers c)(i := R_done h l) \<rparr>"
    by (auto split: reader_pc.splits)
  from lock_invD(5) [OF assms(1), of i] f have ok: "consistent_pair h l" by simp
  show ?thesis
    by (rule inv_reader_step [OF assms(1), where i = i and r' = "R_done h l"])
       (simp_all add: c' f ok)
qed

lemma inv_RRestart:
  assumes "lock_inv c" "fire (RRestart i) c = Some c'"
  shows "lock_inv c'"
proof -
  from assms(2) obtain h l where f: "readers c i = R_done h l"
    and c': "c' = c\<lparr> readers := (readers c)(i := R_idle) \<rparr>"
    by (auto split: reader_pc.splits)
  note d = lock_invD [OF assms(1)]
  from d(2) [of i] f have o: "lock c \<noteq> Some (Reader i)" by simp
  show ?thesis
  proof (rule lock_invI)
    show "(wpc c' \<noteq> W_idle) = (lock c' = Some Writer)" using d(1) by (simp add: c')
    show "in_section (readers c' j) = (lock c' = Some (Reader j))" for j
      using d(2) [of j] o by (simp add: c')
    show "0 < maxlen (sensor_readings (shared c'))" using d(3) by (simp add: c')
    show "writer_ok (shared c') (wpc c')" using d(4) by (simp add: c')
    show "reader_ok (shared c') (readers c' j)" for j using d(5) [of j] by (simp add: c')
  qed
qed

lemma inv_fire:
  assumes "lock_inv c" "fire a c = Some c'"
  shows "lock_inv c'"
  using assms
  by (cases a)
     (blast intro: inv_WAcquire inv_WSetLatest inv_WAppend inv_WRelease inv_RAcquire
        inv_RReadHistory inv_RReadLatest inv_RRelease inv_RRestart)+

lemma inv_run: "lock_inv c \<Longrightarrow> run_actions as c = Some c' \<Longrightarrow> lock_inv c'"
proof (induction as arbitrary: c)
  case Nil
  then show ?case by simp
next
  case (Cons a as)
  from Cons.prems(2) obtain c1 where f: "fire a c = Some c1" and r: "run_actions as c1 = Some c'"
    by (auto split: option.splits)
  from inv_fire [OF Cons.prems(1) f] have "lock_inv c1" .
  from Cons.IH [OF this r] show ?case .
qed


lemma tag_payload_truthy: "tag_payload payload = Inr r \<Longrightarrow> truthy r"
  by (auto simp: tag_payload_def then_do_def dict_set_not_Nil split: sum.splits)

lemma drop_to_last: "xs \<noteq> [] \<Longrightarrow> drop (length xs - Suc 0) xs = [last xs]"
  by (cases xs rule: rev_cases) simp_all

lemma on_message_stores:
  assumes t: "tag_payload payload = Inr r" and m: "0 < maxlen (sensor_readings st)"
  shows "on_message ''aquaponics/sensors/all'' (Some payload) st = store_reading r st"
    and "latest_reading (on_message ''aquaponics/sensors/all'' (Some payload) st) = r"
    and "get_latest (on_message ''aquaponics/sensors/all'' (Some payload) st) = r"
    and "last (items (sensor_readings (on_message ''aquaponics/sensors/all'' (Some payload) st))) = r"
    and "readings (get_data 1 (on_message ''aquaponics/sensors/all'' (Some payload) st)) = [r]"
    and "consistent (on_message ''aquaponics/sensors/all'' (Some payload) st)"
proof -
  show e: "on_message ''aquaponics/sensors/all'' (Some payload) st = store_reading r st"
    using t by (simp add: on_message_def)
  show "latest_reading (on_message ''aquaponics/sensors/all'' (Some payload) st) = r"
    unfolding e by (simp add: store_reading_def)
  show "get_latest (on_message ''aquaponics/sensors/all'' (Some payload) st) = r"
    unfolding e using tag_payload_truthy [OF t] by (simp add: store_reading_def get_latest_def)
  have l: "items (sensor_readings (store_reading r st)) \<noteq> []"
      "last (items (sensor_readings (store_reading r st))) = r"
    using deque_append_last [OF m, of r] by (simp_all add: store_reading_def)
  show "last (items (sensor_readings (on_message ''aquaponics/sensors/all'' (Some payload) st))) = r"
    unfolding e by (rule l(2))
  have "readings (get_data 1 (store_reading r st))
      = drop (length (items (sensor_readings (store_reading r st))) - nat 1)
          (items (sensor_readings (store_reading r st)))"
    using get_data_positive_limit [of 1 "store_reading r st"] by simp
  also have "\<dots> = [last (items (sensor_readings (store_reading r st)))]"
    using drop_to_last [OF l(1)] by simp
  finally show "readings (get_data 1 (on_message ''aquaponics/sensors/all'' (Some payload) st)) = [r]"
    unfolding e l(2) .
  show "consistent (on_message ''aquaponics/sensors/all'' (Some payload) st)"
    unfolding e using l by (simp add: consistent_def consistent_pair_def store_reading_def)
qed

lemma writer_section_is_on_message:
  assumes "tag_payload payload = Inr p" "lock c = None" "wpc c = W_idle"
  shows "run_actions [WAcquire payload, WSetLatest, WAppend, WRelease] c
         = Some (c\<lparr> shared := on_message ''aquaponics/sensors/all'' (Some payload) (shared c) \<rparr>)"
  using assms by (cases c) (simp add: on_message_def store_reading_def)

text \<open>
  C1.  When a reading is ingested (its payload is tagged to \<open>r\<close>) into a store of
  positive capacity, then after \<^verbatim>\<open>on_message\<close> returns \<^verbatim>\<open>latest_reading\<close> is \<open>r\<close>,
  \<^verbatim>\<open>GET /latest\<close> returns \<open>r\<close>, the newest entry of the history is \<open>r\<close> and the history
  query with limit 1 returns \<open>[r]\<close>.  And in every configuration reached by any
  interleaving of the writer and the readers from the initial one, the pair a reader has
  read under the lock is consistent (never a latest reading \<open>K\<close> with a history ending
  at \<open>K - 1\<close>, or the converse), the store is consistent whenever the writer does not hold
  the lock, and the writer is outside its critical section whenever a reader is inside
  its own.
\<close>

theorem ingest_atomic:
  "(tag_payload payload = Inr r \<and> 0 < maxlen (sensor_readings st) \<longrightarrow>
      latest_reading (on_message ''aquaponics/sensors/all'' (Some payload) st) = r
    \<and> get_latest (on_message ''aquaponics/sensors/all'' (Some payload) st) = r
    \<and> last (items (sensor_readings (on_message ''aquaponics/sensors/all'' (Some payload) st))) = r
    \<and> readings (get_data 1 (on_message ''aquaponics/sensors/all'' (Some payload) st)) = [r])
   \<and> (run_actions as init_config = Some c \<longrightarrow>
        (readers c i = R_done h l \<longrightarrow> consistent_pair h l)
      \<and> (readers c i = R_read_both h l \<longrightarrow> consistent_pair h l)
      \<and> (lock c \<noteq> Some Writer \<longrightarrow> consistent (shared c))
      \<and> (in_section (readers c i) \<longrightarrow> wpc c = W_idle))"
proof (intro conjI impI)
  assume a: "tag_payload payload = Inr r \<and> 0 < maxlen (sensor_readings st)"
  then have t: "tag_payload payload = Inr r" and m: "0 < maxlen (sensor_readings st)" by simp_all
  note s = on_message_stores [OF t m]
  show "latest_reading (on_message ''aquaponics/sensors/all'' (Some payload) st) = r" by (rule s(2))
  show "get_latest (on_message ''aquaponics/sensors/all'' (Some payload) st) = r" by (rule s(3))
  show "last (items (sensor_readings (on_message ''aquaponics/sensors/all'' (Some payload) st))) = r"
    by (rule s(4))
  show "readings (get_data 1 (on_message ''aquaponics/sensors/all'' (Some payload) st)) = [r]"
    by (rule s(5))
next
  assume "run_actions as init_config = Some c"
  from inv_run [OF inv_init this] have i: "lock_inv c" .
  note d = lock_invD [OF i]
  { assume "readers c i = R_done h l"
    with d(5) [of i] show "consistent_pair h l" by simp }
  { assume "readers c i = R_read_both h l"
    with d(5) [of i] show "consistent_pair h l" by simp }
  { assume "lock c \<noteq> Some Writer"
    with d(1) have "wpc c = W_idle" by simp
    with d(4) show "consistent (shared c)" by simp }
  { assume "in_section (readers c i)"
    with d(2) [of i] have "lock c \<noteq> Some Writer" by simp
    with d(1) show "wpc c = W_idle" by simp }
qed

lemma tag_empty_tagged: "tag_payload (PDict []) = Inr tagged_empty"
  by (simp add: tag_payload_def diagnose_def then_do_def dict_get_simps THRESHOLDS_def
      tagged_empty_def)

lemma writer_then_reader_run:
  "run_actions writer_then_reader init_config
     = Some \<lparr> shared = \<lparr> sensor_readings = \<lparr> maxlen = MAX_READINGS, items = [tagged_empty] \<rparr>,
                         latest_reading = tagged_empty \<rparr>,
              lock = None, wpc = W_idle,
              readers = (\<lambda>i. R_idle)(0 := R_done [tagged_empty] tagged_empty) \<rparr>"
  by (simp add: writer_then_reader_def init_config_def init_store_def tag_empty_tagged
      deque_append_def MAX_READINGS_def)

theorem ingest_atomic_witness:
  "tag_payload (PDict []) = Inr tagged_empty
   \<and> 0 < maxlen (sensor_readings init_store)
   \<and> run_actions writer_then_reader init_config
       = Some \<lparr> shared = \<lparr> sensor_readings = \<lparr> maxlen = MAX_READINGS, items = [tagged_empty] \<rparr>,
                           latest_reading = tagged_empty \<rparr>,
                lock = None, wpc = W_idle,
                readers = (\<lambda>i. R_idle)(0 := R_done [tagged_empty] tagged_empty) \<rparr>
   \<and> consistent_pair [tagged_empty] tagged_empty
   \<and> get_latest (on_message ''aquaponics/sensors/all'' (Some (PDict [])) init_store) = tagged_empty
   \<and> readings (get_data 1 (on_message ''aquaponics/sensors/all'' (Some (PDict [])) init_store))
       = [tagged_empty]"
  using ingest_atomic [of "PDict []" tagged_empty init_store writer_then_reader
      "\<lparr> shared = \<lparr> sensor_readings = \<lparr> maxlen = MAX_READINGS, items = [tagged_empty] \<rparr>,
                           latest_reading = tagged_empty \<rparr>,
                lock = None, wpc = W_idle,
                readers = (\<lambda>i. R_idle)(0 := R_done [tagged_empty] tagged_empty) \<rparr>"
      0 "[tagged_empty]" tagged_empty]
    tag_empty_tagged writer_then_reader_run
  by (simp add: init_store_def MAX_READINGS_def)

section \<open>Unrecognised light states\<close>

lemma get_readings_light_lux:
  "light_lux (fst (get_readings t s))
     = max 0 (py_round ((if manual_light s then (if light_on s then 20000 else 0)
                         else max 0 (20000 * sin (2 * pi * (real (hour_light t) - 6) / 24)))
                        + gauss 0 500 (z_light t)) 0)"
  by (simp add: get_readings_def Let_def)

lemma sin_midnight: "sin (2 * pi * (real 0 - 6) / 24) = - 1"
proof -
  have "2 * pi * (real 0 - 6) / 24 = - (pi / 2)" by simp
  then show ?thesis by (simp only: sin_minus sin_pi_half)
qed

lemma py_round_20000: "py_round 20000 0 = 20000"
  using round_half_even_of_int [of 20000] by (simp add: py_round_def)

text \<open>
  C6.  An unrecognised pump state leaves the device state unchanged, but an unrecognised
  light state does not: sent to a simulator in automatic mode, \<^verbatim>\<open>set_light("blink")\<close>
  (directly, or through the control message) sets the manual-light flag.  At midnight the
  next reading then reports 20000 lux where it would have reported 0.
\<close>

theorem unrecognized_light_state_sets_manual:
  "set_pump (PStr ''blink'') init_sim = init_sim
   \<and> manual_light init_sim = False
   \<and> manual_light (set_light (PStr ''blink'') init_sim) = True
   \<and> manual_light (sim_on_message ''aquaponics/control/light''
        (Some (control_light_payload ''blink'')) init_sim) = True
   \<and> light_lux (fst (get_readings zero_tick init_sim)) = 0
   \<and> light_lux (fst (get_readings zero_tick (set_light (PStr ''blink'') init_sim))) = 20000"
  by (simp add: set_pump_def set_light_def init_sim_def sim_on_message_def
      control_light_payload_def dict_get_simps get_readings_light_lux zero_tick_def
      gauss_def sin_midnight py_round_zero py_round_20000)

end
